theory Spec2Isabelle
  imports Main
begin

section \<open>JavaScript numbers, strings and the built-in Date\<close>

text \<open>
  The routes compute with JavaScript numbers that are whole numbers or \<open>NaN\<close>.
  A number is an \<open>int option\<close>; \<open>None\<close> is \<open>NaN\<close>, which every arithmetic
  operation propagates and every comparison rejects.
\<close>

type_synonym num = "int option"

definition num_add :: "num \<Rightarrow> int \<Rightarrow> num" where
  "num_add a k = map_option (\<lambda>x. x + k) a"

definition num_eq :: "num \<Rightarrow> int \<Rightarrow> bool" where
  \<comment> \<open>\<open>a === k\<close> for a literal \<open>k\<close>; false for \<open>NaN\<close>\<close>
  "num_eq a k = (a = Some k)"

subsection \<open>What the runtime supplies\<close>

text \<open>
  Four functions of the JavaScript runtime are not code of the repository and are taken as
  parameters:
  \<^item> \<open>Number\<close>, the conversion of a string to a number, as far as its value is a whole
    number or \<open>NaN\<close> (a string read as a fraction or an infinity is outside this type);
  \<open>undefined\<close> is not a string and always gives \<open>NaN\<close>;
  \<^item> \<open>LocalTZA\<close>, the offset of the local time zone in milliseconds, at a time value
    when the flag is true and at a local time when it is false;
  \<^item> \<open>DateParse\<close>, the time value of \<open>new Date(s)\<close> for a string \<open>s\<close>;
  \<^item> \<open>validURL\<close>, whether \<open>new URL(s)\<close> accepts \<open>s\<close>.
  Every statement about the code holds for every runtime, or names what it asks of it.
\<close>

record runtime =
  Number :: "string \<Rightarrow> num"
  LocalTZA :: "int \<Rightarrow> bool \<Rightarrow> int"
  DateParse :: "string \<Rightarrow> num"
  validURL :: "string \<Rightarrow> bool"

subsection \<open>Strings\<close>

definition digitChar :: "int \<Rightarrow> char" where
  "digitChar n = char_of (48 + n)"

text \<open>\<open>s.split(c)\<close> for a one-character separator.\<close>

fun split :: "char \<Rightarrow> string \<Rightarrow> string list" where
  "split c [] = [[]]"
| "split c (x # xs) =
     (if x = c then [] # split c xs
      else (case split c xs of [] \<Rightarrow> [[x]] | w # ws \<Rightarrow> (x # w) # ws))"

text \<open>\<open>String(n)\<close> for a whole number.\<close>

function digits :: "int \<Rightarrow> string" where
  "digits n = (if n < 10 then [digitChar n] else digits (n div 10) @ [digitChar (n mod 10)])"
  by pat_completeness auto
termination
  by (relation "measure nat") auto

declare digits.simps [simp del]

definition String :: "num \<Rightarrow> string" where
  "String a = (case a of None \<Rightarrow> ''NaN''
               | Some i \<Rightarrow> if i < 0 then CHR ''-'' # digits (- i) else digits i)"

definition padStart :: "nat \<Rightarrow> char \<Rightarrow> string \<Rightarrow> string" where
  "padStart n c s = replicate (n - length s) c @ s"

subsection \<open>The Date built-in\<close>

text \<open>
  The time value of a Date is a number of milliseconds since 1970-01-01T00:00 UTC, or
  \<open>NaN\<close> for an invalid Date. The definitions follow the ECMAScript ones of the same
  names. The fields of a Date are read from its local time, and a Date is built from a
  local time.
\<close>

definition msPerDay :: int where
  "msPerDay = 86400000"

definition Day :: "int \<Rightarrow> int" where
  "Day t = t div msPerDay"

definition TimeWithinDay :: "int \<Rightarrow> int" where
  "TimeWithinDay t = t mod msPerDay"

definition DayFromYear :: "int \<Rightarrow> int" where
  "DayFromYear y = 365 * (y - 1970) + (y - 1969) div 4 - (y - 1901) div 100 + (y - 1601) div 400"

definition isLeapYear :: "int \<Rightarrow> bool" where
  "isLeapYear y = (y mod 4 = 0 \<and> (y mod 100 \<noteq> 0 \<or> y mod 400 = 0))"

definition DaysInYear :: "int \<Rightarrow> int" where
  "DaysInYear y = (if isLeapYear y then 366 else 365)"

text \<open>
  \<open>YearFromTime\<close> is the largest year whose first day is not after the given day. It is
  computed from the mean year length of 146097/400 days, which is off by at most one.
\<close>

definition YearFromDay :: "int \<Rightarrow> int" where
  "YearFromDay d =
     (let y0 = 1970 + (400 * d) div 146097
      in if DayFromYear (y0 + 1) \<le> d then y0 + 1
         else if DayFromYear y0 \<le> d then y0 else y0 - 1)"

definition YearFromTime :: "int \<Rightarrow> int" where
  "YearFromTime t = YearFromDay (Day t)"

definition InLeapYear :: "int \<Rightarrow> int" where
  "InLeapYear t = (if isLeapYear (YearFromTime t) then 1 else 0)"

definition DayWithinYear :: "int \<Rightarrow> int" where
  "DayWithinYear t = Day t - DayFromYear (YearFromTime t)"

text \<open>The day within the year on which month \<open>m\<close> (0 to 11) starts; 12 gives the year's length.\<close>

definition monthStart :: "int \<Rightarrow> int \<Rightarrow> int" where
  "monthStart m leap =
     (if m \<le> 0 then 0 else if m = 1 then 31 else if m = 2 then 59 + leap
      else if m = 3 then 90 + leap else if m = 4 then 120 + leap
      else if m = 5 then 151 + leap else if m = 6 then 181 + leap
      else if m = 7 then 212 + leap else if m = 8 then 243 + leap
      else if m = 9 then 273 + leap else if m = 10 then 304 + leap
      else if m = 11 then 334 + leap else 365 + leap)"

definition MonthFromTime :: "int \<Rightarrow> int" where
  "MonthFromTime t =
     (let w = DayWithinYear t; leap = InLeapYear t
      in if w < 31 then 0 else if w < 59 + leap then 1 else if w < 90 + leap then 2
         else if w < 120 + leap then 3 else if w < 151 + leap then 4
         else if w < 181 + leap then 5 else if w < 212 + leap then 6
         else if w < 243 + leap then 7 else if w < 273 + leap then 8
         else if w < 304 + leap then 9 else if w < 334 + leap then 10 else 11)"

definition DateFromTime :: "int \<Rightarrow> int" where
  "DateFromTime t = DayWithinYear t - monthStart (MonthFromTime t) (InLeapYear t) + 1"

definition WeekDay :: "int \<Rightarrow> int" where
  "WeekDay t = (Day t + 4) mod 7"

definition MakeDay :: "int \<Rightarrow> int \<Rightarrow> int \<Rightarrow> int" where
  "MakeDay year month date =
     (let ym = year + month div 12; mn = month mod 12
      in DayFromYear ym + monthStart mn (if isLeapYear ym then 1 else 0) + date - 1)"

definition MakeDate :: "int \<Rightarrow> int \<Rightarrow> int" where
  "MakeDate day time = day * msPerDay + time"

definition TimeClip :: "int \<Rightarrow> num" where
  "TimeClip t = (if \<bar>t\<bar> > 8640000000000000 then None else Some t)"

definition LocalTime :: "runtime \<Rightarrow> int \<Rightarrow> int" where
  "LocalTime rt t = t + LocalTZA rt t True"

definition UTC :: "runtime \<Rightarrow> int \<Rightarrow> int" where
  "UTC rt t = t - LocalTZA rt t False"

text \<open>
  \<open>new Date(year, monthIndex, day)\<close>: a year from 0 to 99 stands for 1900 + year, the
  month index and the day may lie outside their ranges and carry over.
\<close>

definition newDate :: "runtime \<Rightarrow> num \<Rightarrow> num \<Rightarrow> num \<Rightarrow> num" where
  "newDate rt year month day =
     (case (year, month, day) of
        (Some y, Some m, Some d) \<Rightarrow>
          (let yr = (if 0 \<le> y \<and> y \<le> 99 then 1900 + y else y)
           in TimeClip (UTC rt (MakeDate (MakeDay yr m d) 0)))
      | _ \<Rightarrow> None)"

definition getFullYear :: "runtime \<Rightarrow> num \<Rightarrow> num" where
  "getFullYear rt date =
     (case date of None \<Rightarrow> None | Some t \<Rightarrow> Some (YearFromTime (LocalTime rt t)))"

definition getMonth :: "runtime \<Rightarrow> num \<Rightarrow> num" where
  "getMonth rt date =
     (case date of None \<Rightarrow> None | Some t \<Rightarrow> Some (MonthFromTime (LocalTime rt t)))"

definition getDate :: "runtime \<Rightarrow> num \<Rightarrow> num" where
  "getDate rt date =
     (case date of None \<Rightarrow> None | Some t \<Rightarrow> Some (DateFromTime (LocalTime rt t)))"

definition getDay :: "runtime \<Rightarrow> num \<Rightarrow> num" where
  "getDay rt date =
     (case date of None \<Rightarrow> None | Some t \<Rightarrow> Some (WeekDay (LocalTime rt t)))"

definition setDate :: "runtime \<Rightarrow> num \<Rightarrow> num \<Rightarrow> num" where
  "setDate rt date dt =
     (case (date, dt) of
        (Some t, Some n) \<Rightarrow>
          (let tl = LocalTime rt t;
               newDay = MakeDay (YearFromTime tl) (MonthFromTime tl) n
           in TimeClip (UTC rt (MakeDate newDay (TimeWithinDay tl))))
      | _ \<Rightarrow> None)"

text \<open>
  \<open>toDateString\<close> names the local calendar day of a time; the string is kept as the
  number of that day. \<open>new Date\<close> of such a string is the local midnight of the day.
\<close>

definition toDateString :: "runtime \<Rightarrow> int \<Rightarrow> int" where
  "toDateString rt now = Day (LocalTime rt now)"

definition dateOfDateString :: "runtime \<Rightarrow> int \<Rightarrow> num" where
  "dateOfDateString rt d = TimeClip (UTC rt (MakeDate d 0))"

section \<open>Recurrence: the next due date\<close>

text \<open>
  A value that may be \<open>null\<close> or missing is an option; a string is falsy when it is
  absent or empty.
\<close>

definition truthy :: "string option \<Rightarrow> bool" where
  "truthy s = (s \<noteq> None \<and> s \<noteq> Some [])"

text \<open>
  Element \<open>i\<close> of \<open>currentDate.split('-').map(Number)\<close>; a missing element is
  \<open>undefined\<close>, which the Date constructor reads as \<open>NaN\<close>.
\<close>

definition segment :: "runtime \<Rightarrow> string list \<Rightarrow> nat \<Rightarrow> num" where
  "segment rt segs i = (if i < length segs then Number rt (segs ! i) else None)"

text \<open>The Date that the function builds from the date string.\<close>

definition parseDate :: "runtime \<Rightarrow> string \<Rightarrow> num" where
  "parseDate rt currentDate =
     (let segs = split (CHR ''-'') currentDate;
          year = segment rt segs 0; month = segment rt segs 1; day = segment rt segs 2
      in newDate rt year (num_add month (- 1)) day)"

text \<open>The Date written back as year, month and day, the last two padded to two places.\<close>

definition formatDate :: "runtime \<Rightarrow> num \<Rightarrow> string" where
  "formatDate rt date =
     (let newYear = getFullYear rt date;
          newMonth = padStart 2 (CHR ''0'') (String (num_add (getMonth rt date) 1));
          newDay = padStart 2 (CHR ''0'') (String (getDate rt date))
      in String newYear @ ''-'' @ newMonth @ ''-'' @ newDay)"

text \<open>The step by the recurrence kind, with the weekend skip of the daily kind.\<close>

definition advance :: "runtime \<Rightarrow> string \<Rightarrow> bool \<Rightarrow> num \<Rightarrow> num" where
  "advance rt recurring workingDaysOnly date0 =
     (if recurring = ''daily'' then
        (let date = setDate rt date0 (num_add (getDate rt date0) 1)
         in if workingDaysOnly then
              (let dayOfWeek = getDay rt date
               in if num_eq dayOfWeek 0 then setDate rt date (num_add (getDate rt date) 1)
                  else if num_eq dayOfWeek 6 then setDate rt date (num_add (getDate rt date) 2)
                  else date)
            else date)
      else if recurring = ''weekly'' then setDate rt date0 (num_add (getDate rt date0) 7)
      else date0)"

definition calculateNextDueDate :: "runtime \<Rightarrow> string option \<Rightarrow> string option \<Rightarrow> bool \<Rightarrow> string option" where
  "calculateNextDueDate rt currentDate recurring workingDaysOnly =
     (if \<not> truthy currentDate \<or> \<not> truthy recurring then currentDate
      else
        (let date = parseDate rt (the currentDate);
             date = advance rt (the recurring) workingDaysOnly date
         in Some (formatDate rt date)))"

text \<open>
  The earlier revision of the routes has the same function without the
  working-days-only parameter.
\<close>

definition calculateNextDueDate_v1 :: "runtime \<Rightarrow> string option \<Rightarrow> string option \<Rightarrow> string option" where
  "calculateNextDueDate_v1 rt currentDate recurring =
     (if \<not> truthy currentDate \<or> \<not> truthy recurring then currentDate
      else
        (let date = parseDate rt (the currentDate);
             date = (if the recurring = ''daily''
                       then setDate rt date (num_add (getDate rt date) 1)
                     else if the recurring = ''weekly''
                       then setDate rt date (num_add (getDate rt date) 7)
                     else date)
         in Some (formatDate rt date)))"

section \<open>The task store\<close>

text \<open>
  A task as the routes build it. Timestamps written by \<open>new Date().toISOString()\<close> are
  kept as their time value in milliseconds; \<open>null\<close> is \<open>None\<close>.
\<close>

record task =
  taskId :: string
  description :: string
  dueDate :: "string option"
  dueTime :: "string option"
  priority :: "string option"
  recurring :: "string option"
  details :: "string option"
  isAppointment :: bool
  reminderMinutes :: num
  workingDaysOnly :: bool
  completed :: bool
  archived :: bool
  inProgress :: bool
  startedAt :: "int option"
  timeSpent :: int
  completedAt :: "int option"
  links :: "string list"
  createdAt :: int
  updatedAt :: int

text \<open>The file \<open>tasks.json\<close> holds one array of tasks.\<close>

type_synonym store = "task list"

definition readTasks :: "store \<Rightarrow> task list" where
  "readTasks file = file"

definition writeTasks :: "task list \<Rightarrow> store \<Rightarrow> store" where
  "writeTasks tasks file = tasks"

text \<open>\<open>Array.prototype.findIndex\<close>; \<open>None\<close> stands for \<open>-1\<close>.\<close>

fun findIndex :: "('a \<Rightarrow> bool) \<Rightarrow> 'a list \<Rightarrow> nat option" where
  "findIndex P [] = None"
| "findIndex P (x # xs) = (if P x then Some 0 else map_option Suc (findIndex P xs))"

definition getTask :: "string \<Rightarrow> store \<Rightarrow> task option" where
  "getTask i file = (let tasks = readTasks file in find (\<lambda>t. taskId t = i) tasks)"

definition saveTask :: "task \<Rightarrow> store \<Rightarrow> store" where
  "saveTask t file =
     (let tasks = readTasks file;
          existingIndex = findIndex (\<lambda>u. taskId u = taskId t) tasks
      in writeTasks (case existingIndex of Some i \<Rightarrow> tasks[i := t] | None \<Rightarrow> tasks @ [t]) file)"

definition deleteTask :: "string \<Rightarrow> store \<Rightarrow> store" where
  "deleteTask i file =
     (let tasks = readTasks file;
          filtered = filter (\<lambda>t. taskId t \<noteq> i) tasks
      in writeTasks filtered file)"

section \<open>The routes\<close>

text \<open>
  A handler takes the clock reading of the request and the store, and returns the
  response with the store it leaves behind.
\<close>

datatype response = Json task | Deleted | Error nat string

record body =
  b_id :: "string option"
  b_description :: "string option"
  b_dueDate :: "string option"
  b_dueTime :: "string option"
  b_priority :: "string option"
  b_links :: "string list option"
  b_recurring :: "string option"
  b_details :: "string option"
  b_isAppointment :: bool
  b_reminderMinutes :: num
  b_workingDaysOnly :: bool

definition isSpace :: "char \<Rightarrow> bool" where
  "isSpace c = ((of_char c :: nat) \<in> {9, 10, 11, 12, 13, 32, 160})"

definition trim :: "string \<Rightarrow> string" where
  "trim s = rev (dropWhile isSpace (rev (dropWhile isSpace s)))"

text \<open>\<open>s || null\<close> on a string and \<open>n || d\<close> on a number.\<close>

definition orNull :: "string option \<Rightarrow> string option" where
  "orNull s = (if truthy s then s else None)"

definition numOr :: "num \<Rightarrow> num \<Rightarrow> num" where
  "numOr n d = (if n = None \<or> n = Some 0 then d else n)"

text \<open>
  \<open>validateTask\<close> throws on the first failing check; the message thrown is returned.
\<close>

definition validateTask :: "runtime \<Rightarrow> task \<Rightarrow> string option" where
  "validateTask rt t =
     (if length (trim (description t)) = 0 then Some ''Description is required''
      else if truthy (priority t) \<and> the (priority t) \<notin> set [''low'', ''medium'', ''high'']
        then Some ''Invalid priority value''
      else (case find (\<lambda>link. \<not> validURL rt link) (links t) of
              Some link \<Rightarrow> Some (''Invalid URL: '' @ link)
            | None \<Rightarrow> None))"

definition newTask :: "string \<Rightarrow> int \<Rightarrow> body \<Rightarrow> task" where
  "newTask i now b =
     \<lparr> taskId = i,
       description = trim (the (b_description b)),
       dueDate = orNull (b_dueDate b),
       dueTime = orNull (b_dueTime b),
       priority = (if truthy (b_priority b) then b_priority b else Some ''medium''),
       recurring = orNull (b_recurring b),
       details = orNull (b_details b),
       isAppointment = b_isAppointment b,
       reminderMinutes =
         (if b_isAppointment b then numOr (b_reminderMinutes b) (Some 30) else None),
       workingDaysOnly =
         (if b_recurring b = Some ''daily'' then b_workingDaysOnly b else False),
       completed = False,
       archived = False,
       inProgress = False,
       startedAt = None,
       timeSpent = 0,
       completedAt = None,
       links = (case b_links b of Some ls \<Rightarrow> ls | None \<Rightarrow> []),
       createdAt = now,
       updatedAt = now \<rparr>"

definition updatedTask :: "task \<Rightarrow> int \<Rightarrow> body \<Rightarrow> task" where
  "updatedTask existingTask now b =
     existingTask
     \<lparr> description := trim (the (b_description b)),
       dueDate := orNull (b_dueDate b),
       dueTime := orNull (b_dueTime b),
       priority := (if truthy (b_priority b) then b_priority b else Some ''medium''),
       recurring := orNull (b_recurring b),
       details := orNull (b_details b),
       links := (case b_links b of Some ls \<Rightarrow> ls | None \<Rightarrow> []),
       isAppointment := b_isAppointment b,
       reminderMinutes :=
         (if b_isAppointment b then numOr (b_reminderMinutes b) (Some 30) else None),
       workingDaysOnly :=
         (if b_recurring b = Some ''daily'' then b_workingDaysOnly b else False),
       updatedAt := now \<rparr>"

definition post_tasks :: "runtime \<Rightarrow> int \<Rightarrow> body \<Rightarrow> store \<Rightarrow> response \<times> store" where
  \<open>post_tasks rt now b file =
     (if \<not> truthy (b_description b) \<or> length (trim (the (b_description b))) = 0
        then (Error 400 ''Description is required'', file)
      else if truthy (b_recurring b) \<and> the (b_recurring b) \<notin> set [''daily'', ''weekly'']
        then (Error 400 ''Recurring must be "daily" or "weekly"'', file)
      else
        (let t = (if truthy (b_id b) then
                    (case getTask (the (b_id b)) file of
                       Some existingTask \<Rightarrow> updatedTask existingTask now b
                     | None \<Rightarrow> newTask (the (b_id b)) now b)
                  else newTask (String (Some now)) now b)
         in case validateTask rt t of
              Some msg \<Rightarrow> (Error 400 msg, file)
            | None \<Rightarrow> (Json t, saveTask t file)))\<close>

text \<open>
  Starting a task: the other running tasks are stopped in the array that was read, the
  requested task is looked up in that array, and \<open>saveTask\<close> then stores that one task.
\<close>

definition start_task :: "int \<Rightarrow> string \<Rightarrow> store \<Rightarrow> response \<times> store" where
  "start_task now i file =
     (let tasks = readTasks file;
          tasks = map (\<lambda>t. if inProgress t \<and> taskId t \<noteq> i
                             then t\<lparr>inProgress := False, startedAt := None\<rparr> else t) tasks
      in case find (\<lambda>t. taskId t = i) tasks of
           None \<Rightarrow> (Error 404 ''Task not found'', file)
         | Some t \<Rightarrow>
             (let t = t\<lparr>inProgress := True, startedAt := Some now, updatedAt := now\<rparr>
              in (Json t, saveTask t file)))"

text \<open>The seconds that stopping or completing adds to \<open>timeSpent\<close>.\<close>

definition elapsed :: "int \<Rightarrow> task \<Rightarrow> int" where
  "elapsed now t =
     (if inProgress t \<and> startedAt t \<noteq> None then (now - the (startedAt t)) div 1000 else 0)"

definition stop_task :: "int \<Rightarrow> string \<Rightarrow> store \<Rightarrow> response \<times> store" where
  "stop_task now i file =
     (case getTask i file of
        None \<Rightarrow> (Error 404 ''Task not found'', file)
      | Some t \<Rightarrow>
          (let t = t\<lparr>timeSpent := timeSpent t + elapsed now t\<rparr>;
               t = t\<lparr>inProgress := False, startedAt := None, updatedAt := now\<rparr>
           in (Json t, saveTask t file)))"

text \<open>
  Completing a task; \<open>rnd\<close> is the value of \<open>Math.floor(Math.random() * 1000)\<close> used
  in the identifier of the successor.
\<close>

definition successor :: "runtime \<Rightarrow> int \<Rightarrow> nat \<Rightarrow> task \<Rightarrow> task" where
  "successor rt now rnd t =
     (let nextDueDate = calculateNextDueDate rt (dueDate t) (recurring t) (workingDaysOnly t)
      in \<lparr> taskId = String (Some now) @ String (Some (int rnd)),
           description = description t,
           dueDate = nextDueDate,
           dueTime = orNull (dueTime t),
           priority = priority t,
           recurring = recurring t,
           details = orNull (details t),
           isAppointment = isAppointment t,
           reminderMinutes = numOr (reminderMinutes t) None,
           workingDaysOnly = workingDaysOnly t,
           completed = False,
           archived = False,
           inProgress = False,
           startedAt = None,
           timeSpent = 0,
           completedAt = None,
           links = links t,
           createdAt = now,
           updatedAt = now \<rparr>)"

definition complete_task :: "runtime \<Rightarrow> int \<Rightarrow> nat \<Rightarrow> string \<Rightarrow> store \<Rightarrow> response \<times> store" where
  "complete_task rt now rnd i file =
     (let allTasks = readTasks file
      in case findIndex (\<lambda>t. taskId t = i) allTasks of
           None \<Rightarrow> (Error 404 ''Task not found'', file)
         | Some taskIndex \<Rightarrow>
             (let t = allTasks ! taskIndex;
                  t = t\<lparr>timeSpent := timeSpent t + elapsed now t\<rparr>;
                  t = t\<lparr>completed := True, archived := True, inProgress := False,
                        startedAt := None, completedAt := Some now, updatedAt := now\<rparr>;
                  allTasks = allTasks[taskIndex := t];
                  allTasks = (if truthy (recurring t) \<and> truthy (dueDate t)
                              then allTasks @ [successor rt now rnd t] else allTasks)
              in (Json t, writeTasks allTasks file)))"

definition restore_task :: "int \<Rightarrow> string \<Rightarrow> store \<Rightarrow> response \<times> store" where
  "restore_task now i file =
     (case getTask i file of
        None \<Rightarrow> (Error 404 ''Task not found'', file)
      | Some t \<Rightarrow>
          (let t = t\<lparr>archived := False, completed := False, updatedAt := now\<rparr>
           in (Json t, saveTask t file)))"

definition delete_task :: "string \<Rightarrow> store \<Rightarrow> response \<times> store" where
  "delete_task i file =
     (case getTask i file of
        None \<Rightarrow> (Error 404 ''Task not found'', file)
      | Some t \<Rightarrow> (Deleted, deleteTask i file))"

section \<open>The streak counter\<close>

text \<open>
  The Gamification object with the item it keeps in \<open>localStorage\<close>, written only by
  \<open>saveStreakData\<close>.
\<close>

record gamification =
  currentStreak :: int
  lastCompletedDate :: "int option"
  tasksCompletedToday :: int
  taskStreakData :: "(int \<times> int option \<times> int) option"

definition resetStreak :: "gamification \<Rightarrow> gamification" where
  "resetStreak g = g\<lparr>currentStreak := 0, lastCompletedDate := None, tasksCompletedToday := 0\<rparr>"

definition saveStreakData :: "gamification \<Rightarrow> gamification" where
  "saveStreakData g =
     g\<lparr>taskStreakData := Some (currentStreak g, lastCompletedDate g, tasksCompletedToday g)\<rparr>"

text \<open>\<open>Math.floor((todayDate - lastDate) / (1000 * 60 * 60 * 24))\<close> on two Dates.\<close>

definition daysBetween :: "num \<Rightarrow> num \<Rightarrow> num" where
  "daysBetween todayDate lastDate =
     (case (todayDate, lastDate) of
        (Some a, Some b) \<Rightarrow> Some ((a - b) div (1000 * 60 * 60 * 24))
      | _ \<Rightarrow> None)"

definition loadStreakData :: "runtime \<Rightarrow> int \<Rightarrow> gamification \<Rightarrow> gamification" where
  "loadStreakData rt now g =
     (case taskStreakData g of
        None \<Rightarrow> resetStreak g
      | Some (dataStreak, dataDate, dataToday) \<Rightarrow>
          (let today = toDateString rt now
           in if dataDate = Some today then
                g\<lparr>currentStreak := dataStreak, lastCompletedDate := dataDate,
                  tasksCompletedToday := dataToday\<rparr>
              else
                (case dataDate of
                   Some lastDay \<Rightarrow>
                     (let lastDate = dateOfDateString rt lastDay;
                          todayDate = dateOfDateString rt today;
                          daysDiff = daysBetween todayDate lastDate
                      in if num_eq daysDiff 1 then
                           g\<lparr>currentStreak := dataStreak + 1, lastCompletedDate := Some today,
                             tasksCompletedToday := 0\<rparr>
                         else
                           g\<lparr>currentStreak := 0, lastCompletedDate := Some today,
                             tasksCompletedToday := 0\<rparr>)
                 | None \<Rightarrow> resetStreak g)))"

definition recordTaskCompletion :: "runtime \<Rightarrow> int \<Rightarrow> gamification \<Rightarrow> bool \<times> gamification" where
  "recordTaskCompletion rt now g =
     (let today = toDateString rt now
      in if lastCompletedDate g = Some today then
           (let g = g\<lparr>tasksCompletedToday := tasksCompletedToday g + 1\<rparr>;
                g = saveStreakData g;
                g = (if tasksCompletedToday g = 3 \<and> currentStreak g = 0
                     then saveStreakData (g\<lparr>currentStreak := 1\<rparr>) else g)
            in (tasksCompletedToday g = 3, g))
         else
           (let previousDayMet = (tasksCompletedToday g \<ge> 3);
                g = (if previousDayMet \<and> currentStreak g > 0
                       then g\<lparr>currentStreak := currentStreak g + 1\<rparr>
                     else if previousDayMet \<and> currentStreak g = 0
                       then g\<lparr>currentStreak := 1\<rparr>
                     else if \<not> previousDayMet then g\<lparr>currentStreak := 0\<rparr>
                     else g);
                g = g\<lparr>lastCompletedDate := Some today, tasksCompletedToday := 1\<rparr>
            in (False, saveStreakData g)))"

text \<open>
  The constructor, run when the page loads: the fields are set by the load, from the item
  that the storage holds.
\<close>

definition newGamification :: "runtime \<Rightarrow> int \<Rightarrow> (int \<times> int option \<times> int) option \<Rightarrow> gamification" where
  "newGamification rt now item =
     loadStreakData rt now
       \<lparr>currentStreak = 0, lastCompletedDate = None, tasksCompletedToday = 0,
        taskStreakData = item\<rparr>"

text \<open>A run of completion events on one page, each at its own clock reading.\<close>

fun completions :: "runtime \<Rightarrow> int list \<Rightarrow> gamification \<Rightarrow> gamification" where
  "completions rt [] g = g"
| "completions rt (now # nows) g = completions rt nows (snd (recordTaskCompletion rt now g))"

text \<open>
  What happens to the streak counter of one browser: a task is completed, or the page is
  loaded again. The states that these events reach from an empty storage:
\<close>

datatype streakEvent = Completion int | PageLoad int

fun streakStep :: "runtime \<Rightarrow> streakEvent \<Rightarrow> gamification \<Rightarrow> gamification" where
  "streakStep rt (Completion now) g = snd (recordTaskCompletion rt now g)"
| "streakStep rt (PageLoad now) g = newGamification rt now (taskStreakData g)"

inductive reachableStreak :: "runtime \<Rightarrow> gamification \<Rightarrow> bool" for rt where
  first_load: "reachableStreak rt (newGamification rt now None)"
| next_event: "reachableStreak rt g \<Longrightarrow> reachableStreak rt (streakStep rt e g)"

section \<open>Appointment reminders\<close>
















section \<open>Example inputs\<close>

text \<open>
  A runtime for the examples: \<open>Number\<close> on a string of decimal digits, a zone at a fixed
  offset, a parser of \<open>YYYY-MM-DDTHH:mm\<close> with every field in range. The examples pass
  no other strings; on the others this stand-in gives \<open>NaN\<close>, whatever a real runtime
  does.
\<close>

definition isDigit :: "char \<Rightarrow> bool" where
  "isDigit c = (48 \<le> (of_char c :: int) \<and> (of_char c :: int) \<le> 57)"

definition digitVal :: "char \<Rightarrow> int" where
  "digitVal c = of_char c - 48"

definition decimalNumber :: "string \<Rightarrow> num" where
  "decimalNumber s = (if list_all isDigit s
                      then Some (foldl (\<lambda>a c. 10 * a + digitVal c) 0 s) else None)"

definition fixedDigits :: "nat \<Rightarrow> string \<Rightarrow> bool" where
  "fixedDigits n s = (length s = n \<and> list_all isDigit s)"

definition isoLocalParse :: "int \<Rightarrow> string \<Rightarrow> num" where
  "isoLocalParse z s =
     (case split (CHR ''T'') s of
        [d, t] \<Rightarrow>
          (case (split (CHR ''-'') d, split (CHR '':'') t) of
             ([ys, ms, ds], [hs, mins]) \<Rightarrow>
               (if fixedDigits 4 ys \<and> fixedDigits 2 ms \<and> fixedDigits 2 ds
                   \<and> fixedDigits 2 hs \<and> fixedDigits 2 mins
                then
                  (let y = the (decimalNumber ys); m = the (decimalNumber ms);
                       dd = the (decimalNumber ds); h = the (decimalNumber hs);
                       mi = the (decimalNumber mins);
                       leap = (if isLeapYear y then 1 else 0)
                   in if 1 \<le> m \<and> m \<le> 12 \<and> 1 \<le> dd
                         \<and> dd \<le> monthStart m leap - monthStart (m - 1) leap
                         \<and> h \<le> 23 \<and> mi \<le> 59
                      then TimeClip (MakeDate (MakeDay y (m - 1) dd) (h * 3600000 + mi * 60000) - z)
                      else None)
                else None)
           | _ \<Rightarrow> None)
      | _ \<Rightarrow> None)"

definition exampleRuntime :: "int \<Rightarrow> runtime" where
  "exampleRuntime z =
     \<lparr> Number = decimalNumber, LocalTZA = (\<lambda>t isUTC. z), DateParse = isoLocalParse z,
       validURL = (\<lambda>s. True) \<rparr>"

definition exampleBody :: "string \<Rightarrow> body" where
  "exampleBody i =
     \<lparr> b_id = Some i, b_description = Some ''write report'', b_dueDate = None,
       b_dueTime = None, b_priority = None, b_links = None, b_recurring = None,
       b_details = None, b_isAppointment = False, b_reminderMinutes = None,
       b_workingDaysOnly = False \<rparr>"

definition dailyBody :: "string \<Rightarrow> string \<Rightarrow> body" where
  "dailyBody i d =
     (exampleBody i)\<lparr>b_dueDate := Some d, b_recurring := Some ''daily'',
        b_workingDaysOnly := True\<rparr>"


text \<open>
  What the statements on recurrence ask of the time zone: its offsets stay within a day,
  and a local time taken to UTC and back lies on the same calendar day. A zone at a fixed
  offset is one; so is a zone with daylight saving changes away from midnight.
\<close>

definition zoneKeepsDays :: "runtime \<Rightarrow> bool" where
  "zoneKeepsDays rt =
     ((\<forall>t isUTC. \<bar>LocalTZA rt t isUTC\<bar> \<le> msPerDay)
      \<and> (\<forall>l. Day (LocalTime rt (UTC rt l)) = Day l))"

text \<open>
  A day well inside the range of Dates: a local time on it is the local time of a Date in
  every such zone.
\<close>

definition dayInRange :: "int \<Rightarrow> bool" where
  "dayInRange d = (- 99999999 \<le> d \<and> d \<le> 99999998)"

text \<open>\<open>onDay rt t d\<close>: the Date with time value \<open>t\<close> shows the local calendar day \<open>d\<close>.\<close>

definition onDay :: "runtime \<Rightarrow> int \<Rightarrow> int \<Rightarrow> bool" where
  "onDay rt t d = (Day (LocalTime rt t) = d)"

section \<open>The calendar of the Date built-in\<close>


lemma div_step:
  fixes a k :: int
  assumes k: "0 < k"
  shows "(a + 1) div k = a div k + (if (a + 1) mod k = 0 then 1 else 0)"
proof -
  define q where "q = a div k"
  define r where "r = a mod k"
  have a: "a = k * q + r" unfolding q_def r_def by simp
  have r: "0 \<le> r" "r < k" unfolding r_def using k by simp_all
  show ?thesis
  proof (cases "r + 1 < k")
    case True
    have s: "a + 1 = k * q + (r + 1)" using a by simp
    have d: "(a + 1) div k = q" unfolding s using k r True by simp
    have m: "(a + 1) mod k = r + 1" unfolding s using k r True by simp
    show ?thesis using d m r unfolding q_def by simp
  next
    case False
    with r have "r + 1 = k" by simp
    then have s: "a + 1 = k * (q + 1)" using a by (simp add: algebra_simps)
    have d: "(a + 1) div k = q + 1" unfolding s using k by simp
    have m: "(a + 1) mod k = 0" unfolding s by simp
    show ?thesis using d m unfolding q_def by simp
  qed
qed

lemma mod_shift: "(y - k * c) mod k = y mod k" for y k c :: int
  using mod_mult_self2[of y k "- c"] by simp

lemma mod_400_100: "y mod 400 = 0 \<Longrightarrow> y mod 100 = 0" for y :: int
  using mod_mod_cancel[of 100 400 y] by simp

lemma mod_100_4: "y mod 100 = 0 \<Longrightarrow> y mod 4 = 0" for y :: int
  using mod_mod_cancel[of 4 100 y] by simp

lemma leap_step_linear:
  fixes A B C y :: int
  assumes "b400 \<longrightarrow> b100" "b100 \<longrightarrow> b4"
  shows "365 * (y - 1969) + (A + (if b4 then 1 else 0)) - (B + (if b100 then 1 else 0))
           + (C + (if b400 then 1 else 0))
         = 365 * (y - 1970) + A - B + C + (if b4 \<and> (\<not> b100 \<or> b400) then 366 else 365)"
  using assms by (cases b4; cases b100; cases b400) simp_all

lemma DayFromYear_succ: "DayFromYear (y + 1) = DayFromYear y + DaysInYear y"
proof -
  have e: "y + 1 - 1969 = (y - 1969) + 1" "y + 1 - 1901 = (y - 1901) + 1"
    "y + 1 - 1601 = (y - 1601) + 1" "y + 1 - 1970 = y - 1969"
    by simp_all
  have s: "y - 1969 + 1 = y - 4 * 492" "y - 1901 + 1 = y - 100 * 19"
    "y - 1601 + 1 = y - 400 * 4"
    by simp_all
  have m4: "(y - 1969 + 1) mod 4 = y mod 4"
    unfolding s by (rule mod_shift)
  have m100: "(y - 1901 + 1) mod 100 = y mod 100"
    unfolding s by (rule mod_shift)
  have m400: "(y - 1601 + 1) mod 400 = y mod 400"
    unfolding s by (rule mod_shift)
  have d4: "(y - 1969 + 1) div 4 = (y - 1969) div 4 + (if y mod 4 = 0 then 1 else 0)"
    unfolding m4[symmetric] by (rule div_step) simp
  have d100: "(y - 1901 + 1) div 100 = (y - 1901) div 100 + (if y mod 100 = 0 then 1 else 0)"
    unfolding m100[symmetric] by (rule div_step) simp
  have d400: "(y - 1601 + 1) div 400 = (y - 1601) div 400 + (if y mod 400 = 0 then 1 else 0)"
    unfolding m400[symmetric] by (rule div_step) simp
  have imp: "y mod 400 = 0 \<longrightarrow> y mod 100 = 0" "y mod 100 = 0 \<longrightarrow> y mod 4 = 0"
    using mod_400_100[of y] mod_100_4[of y] by blast+
  have l: "isLeapYear y \<longleftrightarrow> y mod 4 = 0 \<and> (\<not> y mod 100 = 0 \<or> y mod 400 = 0)"
    unfolding isLeapYear_def by blast
  show ?thesis
    unfolding DayFromYear_def DaysInYear_def l e d4 d100 d400
    by (rule leap_step_linear[OF imp])
qed


lemma div_lower: "0 < k \<Longrightarrow> k * (a div k) \<le> (a::int)"
  by (metis mult.commute div_mult_mod_eq pos_mod_sign le_add_same_cancel1)

lemma div_upper: "0 < k \<Longrightarrow> (a::int) \<le> k * (a div k) + (k - 1)"
proof -
  assume k: "0 < k"
  have "a = k * (a div k) + a mod k" by simp
  moreover have "a mod k \<le> k - 1" using pos_mod_bound[OF k, of a] by linarith
  ultimately show ?thesis by linarith
qed

lemma leap_days_linear:
  fixes A B C y :: int
  assumes "4 * A \<le> y - 1969" "y - 1969 \<le> 4 * A + 3"
      and "100 * B \<le> y - 1901" "y - 1901 \<le> 100 * B + 99"
      and "400 * C \<le> y - 1601" "y - 1601 \<le> 400 * C + 399"
  shows "146000 * y + 400 * A - 400 * B + 400 * C \<le> 146097 * y - 190501"
    and "146097 * y - 191596 \<le> 146000 * y + 400 * A - 400 * B + 400 * C"
  using assms by linarith+

lemma DayFromYear_expand:
  "400 * DayFromYear y = 146000 * y + 400 * ((y - 1969) div 4) - 400 * ((y - 1901) div 100)
      + 400 * ((y - 1601) div 400) - 287620000"
  unfolding DayFromYear_def by (simp add: algebra_simps)

lemma DayFromYear_upper: "400 * DayFromYear y \<le> 146097 * y - 287810501"
  using leap_days_linear(1)[of "(y - 1969) div 4" y "(y - 1901) div 100" "(y - 1601) div 400"]
  unfolding DayFromYear_expand by (simp add: div_lower div_upper)

lemma DayFromYear_lower: "146097 * y - 287811596 \<le> 400 * DayFromYear y"
  using leap_days_linear(2)[of "(y - 1969) div 4" y "(y - 1901) div 100" "(y - 1601) div 400"]
  unfolding DayFromYear_expand by (simp add: div_lower div_upper)

lemma YearFromDay_bounds:
  "DayFromYear (YearFromDay d) \<le> d \<and> d < DayFromYear (YearFromDay d + 1)"
proof -
  define q where "q = (400 * d) div 146097"
  define y0 where "y0 = 1970 + q"
  define ym where "ym = y0 - 1"
  define yp where "yp = y0 + 2"
  have lo: "146097 * q \<le> 400 * d"
    unfolding q_def by (rule div_lower) simp
  have hi: "400 * d \<le> 146097 * q + 146096"
    unfolding q_def using div_upper[of 146097 "400 * d"] by simp
  have ymq: "ym = q + 1969" and ypq: "yp = q + 1972"
    unfolding ym_def yp_def y0_def by simp_all
  have "400 * DayFromYear ym \<le> 146097 * q - 145508"
    using DayFromYear_upper[of ym] unfolding ymq by (simp add: algebra_simps)
  with lo have a: "DayFromYear ym \<le> d"
    by linarith
  have "146097 * q + 291688 \<le> 400 * DayFromYear yp"
    using DayFromYear_lower[of yp] unfolding ypq by (simp add: algebra_simps)
  with hi have b: "d < DayFromYear yp"
    by linarith
  have c: "YearFromDay d = (if DayFromYear (y0 + 1) \<le> d then y0 + 1
         else if DayFromYear y0 \<le> d then y0 else y0 - 1)"
    unfolding YearFromDay_def y0_def q_def Let_def by simp
  have e: "y0 + 1 + 1 = yp" "ym + 1 = y0" "y0 - 1 = ym"
    unfolding ym_def yp_def by simp_all
  show ?thesis
    using a b unfolding c by (simp add: e)
qed


lemma DayWithinYear_range:
  "0 \<le> DayWithinYear t \<and> DayWithinYear t < DaysInYear (YearFromTime t)"
  using YearFromDay_bounds[of "Day t"] DayFromYear_succ[of "YearFromTime t"]
  unfolding DayWithinYear_def YearFromTime_def by linarith

lemma DayWithinYear_leap: "DayWithinYear t < 365 + InLeapYear t"
  using DayWithinYear_range[of t] unfolding DaysInYear_def InLeapYear_def
  by (simp split: if_splits)

lemma InLeapYear_cases: "InLeapYear t = 0 \<or> InLeapYear t = 1"
  unfolding InLeapYear_def by simp

lemma MonthFromTime_range: "0 \<le> MonthFromTime t \<and> MonthFromTime t \<le> 11"
  unfolding MonthFromTime_def Let_def by simp

lemma DateFromTime_range:
  "1 \<le> DateFromTime t \<and>
   DateFromTime t \<le> monthStart (MonthFromTime t + 1) (InLeapYear t)
                       - monthStart (MonthFromTime t) (InLeapYear t)"
  using DayWithinYear_range[of t] DayWithinYear_leap[of t] InLeapYear_cases[of t]
  unfolding DateFromTime_def MonthFromTime_def monthStart_def Let_def
  by auto

lemma MakeDay_fields:
  "MakeDay (YearFromTime t) (MonthFromTime t) n = Day t - DateFromTime t + n"
proof -
  have m: "MonthFromTime t div 12 = 0" "MonthFromTime t mod 12 = MonthFromTime t"
    using MonthFromTime_range[of t] by simp_all
  show ?thesis
    unfolding MakeDay_def Let_def m DateFromTime_def DayWithinYear_def InLeapYear_def
    by simp
qed

section \<open>Dates in the local time zone\<close>

lemma msPerDay_pos: "0 < msPerDay"
  unfolding msPerDay_def by simp

lemma Day_MakeDate: "0 \<le> tod \<Longrightarrow> tod < msPerDay \<Longrightarrow> Day (MakeDate d tod) = d"
proof -
  assume a: "0 \<le> tod" "tod < msPerDay"
  have "(d * msPerDay + tod) div msPerDay = d + tod div msPerDay"
    using msPerDay_pos by simp
  also have "tod div msPerDay = 0" using a by simp
  finally show ?thesis unfolding Day_def MakeDate_def by simp
qed

lemma TimeWithinDay_range: "0 \<le> TimeWithinDay t \<and> TimeWithinDay t < msPerDay"
  unfolding TimeWithinDay_def using msPerDay_pos by simp

lemma TimeClip_Some: "TimeClip x = Some y \<Longrightarrow> y = x"
  unfolding TimeClip_def by (simp split: if_splits)

lemma TimeClip_None: "TimeClip x = None \<longleftrightarrow> 8640000000000000 < \<bar>x\<bar>"
  unfolding TimeClip_def by simp

lemma TimeClip_local:
  assumes z: "zoneKeepsDays rt" and d: "dayInRange d" and tod: "0 \<le> tod" "tod < msPerDay"
  shows "TimeClip (UTC rt (MakeDate d tod)) = Some (UTC rt (MakeDate d tod))"
proof -
  define l where "l = MakeDate d tod"
  define off where "off = LocalTZA rt l False"
  have o: "\<bar>off\<bar> \<le> msPerDay" using z unfolding zoneKeepsDays_def off_def by blast
  have l1: "d * msPerDay \<le> l" "l < d * msPerDay + msPerDay"
    unfolding l_def MakeDate_def using tod by simp_all
  have lo: "- 99999999 * msPerDay \<le> d * msPerDay"
    using d msPerDay_pos unfolding dayInRange_def by (intro mult_right_mono) simp_all
  have hi: "d * msPerDay \<le> 99999998 * msPerDay"
    using d msPerDay_pos unfolding dayInRange_def by (intro mult_right_mono) simp_all
  have "\<bar>l - off\<bar> \<le> 100000000 * msPerDay"
    using o l1 lo hi by linarith
  then have "\<not> 8640000000000000 < \<bar>UTC rt l\<bar>"
    unfolding UTC_def off_def[symmetric] msPerDay_def by simp
  then show ?thesis unfolding l_def[symmetric] TimeClip_def by simp
qed

lemma onDay_local:
  assumes "zoneKeepsDays rt" "0 \<le> tod" "tod < msPerDay"
  shows "onDay rt (UTC rt (MakeDate d tod)) d"
proof -
  have "Day (LocalTime rt (UTC rt (MakeDate d tod))) = Day (MakeDate d tod)"
    using assms(1) unfolding zoneKeepsDays_def by blast
  then show ?thesis unfolding onDay_def using assms(2,3) by (simp add: Day_MakeDate)
qed

lemma newDate_onDay:
  assumes z: "zoneKeepsDays rt" and y: "100 \<le> y" and r: "dayInRange (MakeDay y m d)"
  shows "\<exists>t. newDate rt (Some y) (Some m) (Some d) = Some t \<and> onDay rt t (MakeDay y m d)"
proof -
  have "newDate rt (Some y) (Some m) (Some d) = TimeClip (UTC rt (MakeDate (MakeDay y m d) 0))"
    unfolding newDate_def Let_def using y by simp
  also have "\<dots> = Some (UTC rt (MakeDate (MakeDay y m d) 0))"
    using z r msPerDay_pos by (intro TimeClip_local) simp_all
  finally show ?thesis
    using onDay_local[OF z, of 0 "MakeDay y m d"] msPerDay_pos by simp
qed

lemma setDate_getDate:
  "setDate rt (Some t) (num_add (getDate rt (Some t)) k)
     = TimeClip (UTC rt (MakeDate (Day (LocalTime rt t) + k) (TimeWithinDay (LocalTime rt t))))"
  unfolding setDate_def getDate_def num_add_def Let_def
  by (simp add: MakeDay_fields)

lemma setDate_onDay:
  assumes z: "zoneKeepsDays rt" and t: "onDay rt t d" and r: "dayInRange (d + k)"
  shows "\<exists>t'. setDate rt (Some t) (num_add (getDate rt (Some t)) k) = Some t'
              \<and> onDay rt t' (d + k)"
proof -
  define tod where "tod = TimeWithinDay (LocalTime rt t)"
  have tod: "0 \<le> tod" "tod < msPerDay"
    unfolding tod_def using TimeWithinDay_range by simp_all
  have "setDate rt (Some t) (num_add (getDate rt (Some t)) k)
          = TimeClip (UTC rt (MakeDate (d + k) tod))"
    using t unfolding setDate_getDate onDay_def tod_def by simp
  also have "\<dots> = Some (UTC rt (MakeDate (d + k) tod))"
    using z r tod by (rule TimeClip_local)
  finally show ?thesis
    using onDay_local[OF z tod, of "d + k"] by simp
qed

lemma setDate_None: "setDate rt None n = None"
  unfolding setDate_def by simp

lemma getDay_onDay: "onDay rt t d \<Longrightarrow> getDay rt (Some t) = Some ((d + 4) mod 7)"
  unfolding getDay_def onDay_def WeekDay_def by simp

section \<open>Looking up and saving tasks\<close>

lemma findIndex_Some:
  "findIndex P xs = Some k \<Longrightarrow> k < length xs \<and> P (xs ! k) \<and> (\<forall>j<k. \<not> P (xs ! j))"
proof (induction xs arbitrary: k)
  case Nil
  then show ?case by simp
next
  case (Cons x xs)
  show ?case
  proof (cases "P x")
    case True
    with Cons.prems show ?thesis by simp
  next
    case False
    with Cons.prems obtain k' where k': "findIndex P xs = Some k'" "k = Suc k'"
      by auto
    from Cons.IH[OF k'(1)] False k'(2) show ?thesis
      by (auto simp: nth_Cons split: nat.splits)
  qed
qed

lemma findIndex_None: "findIndex P xs = None \<longleftrightarrow> (\<forall>x\<in>set xs. \<not> P x)"
  by (induction xs) auto

lemma find_findIndex:
  "find P xs = (case findIndex P xs of None \<Rightarrow> None | Some k \<Rightarrow> Some (xs ! k))"
  by (induction xs) (auto split: option.splits)

lemma findIndex_update:
  "findIndex P xs = Some k \<Longrightarrow> P y \<Longrightarrow> findIndex P (xs[k := y]) = Some k"
proof (induction xs arbitrary: k)
  case Nil
  then show ?case by simp
next
  case (Cons x xs)
  then show ?case by (cases "P x") auto
qed

lemma getTask_None: "getTask i file = None \<longleftrightarrow> findIndex (\<lambda>t. taskId t = i) file = None"
  unfolding getTask_def readTasks_def Let_def
  by (simp add: find_findIndex split: option.splits)

lemma getTask_Some:
  "getTask i file = Some t \<longleftrightarrow>
     (\<exists>k. findIndex (\<lambda>u. taskId u = i) file = Some k \<and> t = file ! k)"
  unfolding getTask_def readTasks_def Let_def
  by (auto simp add: find_findIndex split: option.splits)

lemma getTask_taskId: "getTask i file = Some t \<Longrightarrow> taskId t = i"
  using findIndex_Some[of "\<lambda>u. taskId u = i" "file"] by (auto simp: getTask_Some)

lemma saveTask_existing:
  "findIndex (\<lambda>u. taskId u = taskId t) file = Some k \<Longrightarrow> saveTask t file = file[k := t]"
  unfolding saveTask_def readTasks_def writeTasks_def Let_def by simp

lemma find_append_None: "find P xs = None \<Longrightarrow> find P (xs @ ys) = find P ys"
  by (induction xs) (auto split: if_splits)

lemma getTask_saveTask: "getTask (taskId t) (saveTask t file) = Some t"
proof (cases "findIndex (\<lambda>u. taskId u = taskId t) file")
  case None
  then have "find (\<lambda>u. taskId u = taskId t) file = None"
    by (simp add: find_findIndex)
  then show ?thesis
    using None unfolding getTask_def saveTask_def readTasks_def writeTasks_def Let_def
    by (simp add: find_append_None)
next
  case (Some k)
  have "findIndex (\<lambda>u. taskId u = taskId t) (file[k := t]) = Some k"
    using Some by (rule findIndex_update) simp
  moreover have "k < length file" using findIndex_Some[OF Some] by simp
  ultimately show ?thesis
    by (simp add: getTask_Some saveTask_existing[OF Some])
qed

section \<open>Recurrence\<close>

lemma calculateNextDueDate_truthy:
  "s \<noteq> [] \<Longrightarrow> r \<noteq> [] \<Longrightarrow>
   calculateNextDueDate rt (Some s) (Some r) w
     = Some (formatDate rt (advance rt r w (parseDate rt s)))"
  unfolding calculateNextDueDate_def truthy_def Let_def by simp

lemma parseDate_segments:
  assumes "segment rt (split (CHR ''-'') s) 0 = Some y"
      and "segment rt (split (CHR ''-'') s) 1 = Some m"
      and "segment rt (split (CHR ''-'') s) 2 = Some d"
  shows "parseDate rt s = newDate rt (Some y) (Some (m - 1)) (Some d)"
  using assms unfolding parseDate_def Let_def num_add_def by simp

lemma segments_nonempty: "segment rt (split (CHR ''-'') s) 1 = Some m \<Longrightarrow> s \<noteq> []"
  unfolding segment_def by (auto split: if_splits)

text \<open>The date a valid Date is written as: its local year, month and day.\<close>

lemma formatDate_onDay:
  assumes "onDay rt t d"
  shows "\<exists>Y M D.
           formatDate rt (Some t)
             = String (Some Y) @ ''-'' @ padStart 2 (CHR ''0'') (String (Some M))
               @ ''-'' @ padStart 2 (CHR ''0'') (String (Some D))
         \<and> 1 \<le> M \<and> M \<le> 12 \<and> 1 \<le> D
         \<and> D \<le> monthStart M (if isLeapYear Y then 1 else 0)
                 - monthStart (M - 1) (if isLeapYear Y then 1 else 0)
         \<and> MakeDay Y (M - 1) D = d"
proof -
  define tl where "tl = LocalTime rt t"
  have f: "formatDate rt (Some t)
             = String (Some (YearFromTime tl)) @ ''-''
               @ padStart 2 (CHR ''0'') (String (Some (MonthFromTime tl + 1)))
               @ ''-'' @ padStart 2 (CHR ''0'') (String (Some (DateFromTime tl)))"
    unfolding formatDate_def Let_def getFullYear_def getMonth_def getDate_def num_add_def tl_def
    by simp
  have leap: "InLeapYear tl = (if isLeapYear (YearFromTime tl) then 1 else 0)"
    unfolding InLeapYear_def by simp
  have rng: "1 \<le> MonthFromTime tl + 1 \<and> MonthFromTime tl + 1 \<le> 12"
    using MonthFromTime_range[of tl] by simp
  have drng: "1 \<le> DateFromTime tl \<and>
      DateFromTime tl \<le> monthStart (MonthFromTime tl + 1) (if isLeapYear (YearFromTime tl) then 1 else 0)
                       - monthStart (MonthFromTime tl + 1 - 1) (if isLeapYear (YearFromTime tl) then 1 else 0)"
    using DateFromTime_range[of tl] unfolding leap by simp
  have rt: "MakeDay (YearFromTime tl) (MonthFromTime tl + 1 - 1) (DateFromTime tl) = d"
    using assms unfolding onDay_def tl_def[symmetric] by (simp add: MakeDay_fields)
  show ?thesis
    using f rng drng rt by blast
qed

lemma advance_weekly_onDay:
  assumes z: "zoneKeepsDays rt" and t: "onDay rt t0 d0" and r: "dayInRange (d0 + 7)"
  shows "\<exists>t. advance rt ''weekly'' w (Some t0) = Some t \<and> onDay rt t (d0 + 7)"
  using setDate_onDay[OF z t r] unfolding advance_def by simp

lemma weekday_cases:
  fixes d0 :: int
  shows "(d0 + 4) mod 7 = 5 \<Longrightarrow> (d0 + 1 + 4) mod 7 = 6 \<and> (d0 + 3 + 4) mod 7 = 1"
    and "(d0 + 4) mod 7 = 6 \<Longrightarrow> (d0 + 1 + 4) mod 7 = 0 \<and> (d0 + 2 + 4) mod 7 = 1"
    and "(d0 + 4) mod 7 \<noteq> 5 \<Longrightarrow> (d0 + 4) mod 7 \<noteq> 6 \<Longrightarrow>
         (d0 + 1 + 4) mod 7 \<noteq> 0 \<and> (d0 + 1 + 4) mod 7 \<noteq> 6"
  by presburger+

lemma advance_daily_skip:
  assumes s1: "setDate rt (Some t0) (num_add (getDate rt (Some t0)) 1) = Some t1"
      and g1: "getDay rt (Some t1) = Some w1"
  shows "advance rt ''daily'' True (Some t0)
           = (if w1 = 0 then setDate rt (Some t1) (num_add (getDate rt (Some t1)) 1)
              else if w1 = 6 then setDate rt (Some t1) (num_add (getDate rt (Some t1)) 2)
              else Some t1)"
  unfolding advance_def Let_def s1 g1 num_eq_def by simp

lemma advance_daily_working_onDay:
  assumes z: "zoneKeepsDays rt" and t: "onDay rt t0 d0"
      and r1: "dayInRange (d0 + 1)" and r3: "dayInRange (d0 + 3)"
  shows "\<exists>t. advance rt ''daily'' True (Some t0) = Some t
            \<and> onDay rt t (d0 + (if (d0 + 4) mod 7 = 5 then 3
                                 else if (d0 + 4) mod 7 = 6 then 2 else 1))"
proof -
  define w0 where "w0 = (d0 + 4) mod 7"
  define w1 where "w1 = (d0 + 1 + 4) mod 7"
  obtain t1 where s1: "setDate rt (Some t0) (num_add (getDate rt (Some t0)) 1) = Some t1"
    and o1: "onDay rt t1 (d0 + 1)"
    using setDate_onDay[OF z t r1] by blast
  have g1: "getDay rt (Some t1) = Some w1"
    unfolding w1_def using o1 by (rule getDay_onDay)
  note adv = advance_daily_skip[OF s1 g1]
  have r2: "dayInRange (d0 + 1 + 1)"
    using r1 r3 unfolding dayInRange_def by linarith
  have r3': "dayInRange (d0 + 1 + 2)"
    using r3 unfolding dayInRange_def by linarith
  have e: "d0 + 1 + 1 = d0 + 2" "d0 + 1 + 2 = d0 + 3" by simp_all
  consider (fri) "w0 = 5" | (sat) "w0 = 6" | (other) "w0 \<noteq> 5" "w0 \<noteq> 6"
    by blast
  then have "\<exists>t. advance rt ''daily'' True (Some t0) = Some t
            \<and> onDay rt t (d0 + (if w0 = 5 then 3 else if w0 = 6 then 2 else 1))"
  proof cases
    case fri
    have wd: "w1 = 6"
      unfolding w1_def using weekday_cases(1)[OF fri[unfolded w0_def]] by (rule conjunct1)
    from setDate_onDay[OF z o1 r3']
    obtain t2 where s2: "setDate rt (Some t1) (num_add (getDate rt (Some t1)) 2) = Some t2"
      and o2: "onDay rt t2 (d0 + 3)" unfolding e by blast
    have "advance rt ''daily'' True (Some t0) = Some t2"
      unfolding adv wd s2 by simp
    with o2 show ?thesis unfolding fri by simp
  next
    case sat
    have wd: "w1 = 0"
      unfolding w1_def using weekday_cases(2)[OF sat[unfolded w0_def]] by (rule conjunct1)
    from setDate_onDay[OF z o1 r2]
    obtain t2 where s2: "setDate rt (Some t1) (num_add (getDate rt (Some t1)) 1) = Some t2"
      and o2: "onDay rt t2 (d0 + 2)" unfolding e by blast
    have "advance rt ''daily'' True (Some t0) = Some t2"
      unfolding adv wd s2 by simp
    with o2 show ?thesis unfolding sat by simp
  next
    case other
    note wc = weekday_cases(3)[OF other[unfolded w0_def]]
    have wd: "w1 \<noteq> 0" "w1 \<noteq> 6"
      unfolding w1_def using wc by (rule conjunct1, rule conjunct2)
    have "advance rt ''daily'' True (Some t0) = Some t1"
      unfolding adv using wd by simp
    with o1 other show ?thesis by simp
  qed
  then show ?thesis unfolding w0_def .
qed

lemma complete_task_found:
  assumes "findIndex (\<lambda>u. taskId u = i) file = Some k"
  shows "complete_task rt now rnd i file =
     (let t = (file ! k)\<lparr>timeSpent := timeSpent (file ! k) + elapsed now (file ! k),
                 completed := True, archived := True, inProgress := False,
                 startedAt := None, completedAt := Some now, updatedAt := now\<rparr>
      in (Json t,
          if truthy (recurring (file ! k)) \<and> truthy (dueDate (file ! k))
          then file[k := t] @ [successor rt now rnd t] else file[k := t]))"
  using assms unfolding complete_task_def readTasks_def writeTasks_def Let_def by simp

lemma zoneKeepsDays_example:
  assumes "\<bar>z\<bar> \<le> msPerDay"
  shows "zoneKeepsDays (exampleRuntime z)"
  using assms unfolding zoneKeepsDays_def exampleRuntime_def LocalTime_def UTC_def by simp

subsection \<open>Daily recurrence on working days\<close>

text \<open>
  C3, amended: take a runtime whose time zone keeps calendar days, and a due date whose
  three segments \<open>Number\<close> reads as \<open>y\<close>, \<open>m\<close> and \<open>d\<close>, with a year from 100 on
  and a day number \<open>MakeDay y (m - 1) d\<close> from -99999999 to 99999995. For a daily task
  with the working-days-only flag the result is then the calendar date, written as year,
  two-digit month and two-digit day, of the day after the due date, or of the Monday
  after it when that day is a Saturday or a Sunday (three days after a Friday, two after
  a Saturday). It is never a Saturday or a Sunday, and the successor that completing the
  task adds to the store carries it as its due date.
\<close>

theorem daily_working_days_next_weekday:
  assumes "zoneKeepsDays rt"
      and "segment rt (split (CHR ''-'') s) 0 = Some y"
      and "segment rt (split (CHR ''-'') s) 1 = Some m"
      and "segment rt (split (CHR ''-'') s) 2 = Some d"
      and "100 \<le> y"
      and "- 99999999 \<le> MakeDay y (m - 1) d"
      and "MakeDay y (m - 1) d + 3 \<le> 99999998"
  shows "\<exists>Y M D.
           calculateNextDueDate rt (Some s) (Some ''daily'') True
             = Some (String (Some Y) @ ''-'' @ padStart 2 (CHR ''0'') (String (Some M))
                     @ ''-'' @ padStart 2 (CHR ''0'') (String (Some D)))
         \<and> 1 \<le> M \<and> M \<le> 12 \<and> 1 \<le> D
         \<and> D \<le> monthStart M (if isLeapYear Y then 1 else 0)
                 - monthStart (M - 1) (if isLeapYear Y then 1 else 0)
         \<and> MakeDay Y (M - 1) D
             = MakeDay y (m - 1) d
               + (if (MakeDay y (m - 1) d + 4) mod 7 = 5 then 3
                  else if (MakeDay y (m - 1) d + 4) mod 7 = 6 then 2 else 1)
         \<and> (MakeDay Y (M - 1) D + 4) mod 7 \<noteq> 0
         \<and> (MakeDay Y (M - 1) D + 4) mod 7 \<noteq> 6
         \<and> (\<forall>fl i k now rnd.
               findIndex (\<lambda>u. taskId u = i) fl = Some k \<and> dueDate (fl ! k) = Some s
               \<and> recurring (fl ! k) = Some ''daily'' \<and> workingDaysOnly (fl ! k) \<longrightarrow>
               length (snd (complete_task rt now rnd i fl)) = length fl + 1
               \<and> dueDate (last (snd (complete_task rt now rnd i fl)))
                   = Some (String (Some Y) @ ''-'' @ padStart 2 (CHR ''0'') (String (Some M))
                           @ ''-'' @ padStart 2 (CHR ''0'') (String (Some D))))"
proof -
  define d0 where "d0 = MakeDay y (m - 1) d"
  define w0 where "w0 = (d0 + 4) mod 7"
  define k where "k = (if w0 = 5 then 3 else if w0 = 6 then 2 else (1::int))"
  have ne: "s \<noteq> []" using assms(3) by (rule segments_nonempty)
  have r0: "dayInRange d0" and r1: "dayInRange (d0 + 1)" and r3: "dayInRange (d0 + 3)"
    using assms(6,7) unfolding dayInRange_def d0_def by simp_all
  obtain t0 where p: "parseDate rt s = Some t0" and o0: "onDay rt t0 d0"
    using newDate_onDay[OF assms(1) assms(5), of "m - 1" d] r0
    unfolding parseDate_segments[OF assms(2-4)] d0_def by blast
  obtain t where adv: "advance rt ''daily'' True (Some t0) = Some t"
    and o: "onDay rt t (d0 + k)"
    using advance_daily_working_onDay[OF assms(1) o0 r1 r3] unfolding k_def w0_def by blast
  have res: "calculateNextDueDate rt (Some s) (Some ''daily'') True = Some (formatDate rt (Some t))"
    using ne by (simp add: calculateNextDueDate_truthy p adv)
  obtain Y M D where
    f: "formatDate rt (Some t)
          = String (Some Y) @ ''-'' @ padStart 2 (CHR ''0'') (String (Some M))
            @ ''-'' @ padStart 2 (CHR ''0'') (String (Some D))"
    and rng: "1 \<le> M" "M \<le> 12" "1 \<le> D"
      "D \<le> monthStart M (if isLeapYear Y then 1 else 0)
            - monthStart (M - 1) (if isLeapYear Y then 1 else 0)"
    and md: "MakeDay Y (M - 1) D = d0 + k"
    using formatDate_onDay[OF o] by blast
  have wk: "(d0 + k + 4) mod 7 \<noteq> 0 \<and> (d0 + k + 4) mod 7 \<noteq> 6"
  proof -
    consider (fri) "w0 = 5" | (sat) "w0 = 6" | (other) "w0 \<noteq> 5" "w0 \<noteq> 6" by blast
    then show ?thesis
    proof cases
      case fri
      from weekday_cases(1)[OF fri[unfolded w0_def]] have "(d0 + 3 + 4) mod 7 = 1"
        by (rule conjunct2)
      then show ?thesis unfolding k_def fri by simp
    next
      case sat
      from weekday_cases(2)[OF sat[unfolded w0_def]] have "(d0 + 2 + 4) mod 7 = 1"
        by (rule conjunct2)
      then show ?thesis unfolding k_def sat by simp
    next
      case other
      from weekday_cases(3)[OF other[unfolded w0_def]] show ?thesis
        unfolding k_def using other by simp
    qed
  qed
  have succ: "length (snd (complete_task rt now rnd i fl)) = length fl + 1
        \<and> dueDate (last (snd (complete_task rt now rnd i fl))) = Some (formatDate rt (Some t))"
    if h: "findIndex (\<lambda>u. taskId u = i) fl = Some j \<and> dueDate (fl ! j) = Some s
           \<and> recurring (fl ! j) = Some ''daily'' \<and> workingDaysOnly (fl ! j)"
    for fl i j now rnd
    using h ne res
    by (simp add: complete_task_found Let_def truthy_def successor_def)
  show ?thesis
    unfolding d0_def[symmetric] w0_def[symmetric] k_def[symmetric]
    using res rng md wk succ unfolding f md[symmetric]
    by blast
qed


text \<open>
  In a zone five hours west of Greenwich, Friday 2025-10-24 gives Monday 2025-10-27, also
  as the due date of the successor made by completing the task.
\<close>

theorem daily_working_days_next_weekday_witness:
  "calculateNextDueDate (exampleRuntime (- 18000000)) (Some ''2025-10-24'') (Some ''daily'') True
     = Some ''2025-10-27''
   \<and> (MakeDay 2025 (10 - 1) 24 + 4) mod 7 = 5
   \<and> MakeDay 2025 (10 - 1) 27 = MakeDay 2025 (10 - 1) 24 + 3
   \<and> dueDate (last (snd (complete_task (exampleRuntime (- 18000000)) 5000 7 ''A''
         [newTask ''A'' 1000 (dailyBody ''A'' ''2025-10-24'')]))) = Some ''2025-10-27''"
proof -
  define rt where "rt = exampleRuntime (- 18000000)"
  have z: "zoneKeepsDays rt"
    unfolding rt_def by (rule zoneKeepsDays_example) (simp add: msPerDay_def)
  have s0: "segment rt (split (CHR ''-'') ''2025-10-24'') 0 = Some 2025"
    unfolding rt_def by code_simp
  have s1: "segment rt (split (CHR ''-'') ''2025-10-24'') 1 = Some 10"
    unfolding rt_def by code_simp
  have s2: "segment rt (split (CHR ''-'') ''2025-10-24'') 2 = Some 24"
    unfolding rt_def by code_simp
  have y: "(100::int) \<le> 2025" by simp
  have lo: "- 99999999 \<le> MakeDay 2025 (10 - 1) 24" by code_simp
  have hi: "MakeDay 2025 (10 - 1) 24 + 3 \<le> 99999998" by code_simp
  have e: "calculateNextDueDate rt (Some ''2025-10-24'') (Some ''daily'') True
             = Some ''2025-10-27''"
    unfolding rt_def by code_simp
  have w: "(MakeDay 2025 (10 - 1) 24 + 4) mod 7 = 5" by code_simp
  have m: "MakeDay 2025 (10 - 1) 27 = MakeDay 2025 (10 - 1) 24 + 3" by code_simp
  have st: "findIndex (\<lambda>u. taskId u = ''A'') [newTask ''A'' 1000 (dailyBody ''A'' ''2025-10-24'')] = Some 0
    \<and> dueDate ([newTask ''A'' 1000 (dailyBody ''A'' ''2025-10-24'')] ! 0) = Some ''2025-10-24''
    \<and> recurring ([newTask ''A'' 1000 (dailyBody ''A'' ''2025-10-24'')] ! 0) = Some ''daily''
    \<and> workingDaysOnly ([newTask ''A'' 1000 (dailyBody ''A'' ''2025-10-24'')] ! 0)"
    by (simp add: newTask_def dailyBody_def exampleBody_def orNull_def truthy_def)
  from daily_working_days_next_weekday[OF z s0 s1 s2 y lo hi]
  obtain Y M D where
    r: "calculateNextDueDate rt (Some ''2025-10-24'') (Some ''daily'') True
          = Some (String (Some Y) @ ''-'' @ padStart 2 (CHR ''0'') (String (Some M))
                  @ ''-'' @ padStart 2 (CHR ''0'') (String (Some D)))"
    and c: "\<And>fl i k now rnd.
               findIndex (\<lambda>u. taskId u = i) fl = Some k \<and> dueDate (fl ! k) = Some ''2025-10-24''
               \<and> recurring (fl ! k) = Some ''daily'' \<and> workingDaysOnly (fl ! k) \<Longrightarrow>
               dueDate (last (snd (complete_task rt now rnd i fl)))
                   = Some (String (Some Y) @ ''-'' @ padStart 2 (CHR ''0'') (String (Some M))
                           @ ''-'' @ padStart 2 (CHR ''0'') (String (Some D)))"
    by blast
  have "dueDate (last (snd (complete_task rt 5000 7 ''A''
         [newTask ''A'' 1000 (dailyBody ''A'' ''2025-10-24'')]))) = Some ''2025-10-27''"
    using c[OF st] r e by simp
  then show ?thesis
    using e w m unfolding rt_def by blast
qed

text \<open>
  C3 as stated fails in two places. 0050-03-04 is a Friday, and the Date constructor reads
  the year 50 as 1950, so the result is 1950-03-06 and not the Monday three days later;
  and the day after 275760-09-12 is a Saturday, the last day a Date holds, so the move to
  the Monday leaves the range and the result is not a date.
\<close>

theorem daily_working_days_counterexample:
  "(MakeDay 50 (3 - 1) 4 + 4) mod 7 = 5
   \<and> calculateNextDueDate (exampleRuntime 0) (Some ''0050-03-04'') (Some ''daily'') True
       = Some ''1950-03-06''
   \<and> MakeDay 1950 (3 - 1) 6 \<noteq> MakeDay 50 (3 - 1) 4 + 3
   \<and> calculateNextDueDate (exampleRuntime 0) (Some ''275760-09-12'') (Some ''daily'') True
       = Some ''NaN-NaN-NaN''"
  by code_simp

subsection \<open>Unknown task ids\<close>

text \<open>
  C9: for a task id that no task of the store has, start, stop, complete, restore and
  delete answer 404 "Task not found" and leave the store as it was.
\<close>

theorem not_found_leaves_store:
  assumes "\<forall>t\<in>set file. taskId t \<noteq> i"
  shows "start_task now i file = (Error 404 ''Task not found'', file)
       \<and> stop_task now i file = (Error 404 ''Task not found'', file)
       \<and> complete_task rt now rnd i file = (Error 404 ''Task not found'', file)
       \<and> restore_task now i file = (Error 404 ''Task not found'', file)
       \<and> delete_task i file = (Error 404 ''Task not found'', file)"
proof -
  have fi: "findIndex (\<lambda>t. taskId t = i) file = None"
    using assms by (simp add: findIndex_None)
  then have gt: "getTask i file = None"
    by (simp add: getTask_None)
  have "find (\<lambda>t. taskId t = i)
          (map (\<lambda>t. if inProgress t \<and> taskId t \<noteq> i
                     then t\<lparr>inProgress := False, startedAt := None\<rparr> else t) file) = None"
    using assms by (auto simp: find_None_iff)
  then have s: "start_task now i file = (Error 404 ''Task not found'', file)"
    unfolding start_task_def readTasks_def Let_def by simp
  show ?thesis
    using s gt fi
    unfolding stop_task_def complete_task_def restore_task_def delete_task_def
      readTasks_def Let_def
    by simp
qed

text \<open>A store holding task A, asked for task B.\<close>

theorem not_found_leaves_store_witness:
  "taskId (newTask ''A'' 1000 (exampleBody ''A'')) \<noteq> ''B''
   \<and> start_task 2000 ''B'' [newTask ''A'' 1000 (exampleBody ''A'')]
       = (Error 404 ''Task not found'', [newTask ''A'' 1000 (exampleBody ''A'')])
   \<and> delete_task ''B'' [newTask ''A'' 1000 (exampleBody ''A'')]
       = (Error 404 ''Task not found'', [newTask ''A'' 1000 (exampleBody ''A'')])"
proof -
  have h: "\<forall>t\<in>set [newTask ''A'' 1000 (exampleBody ''A'')]. taskId t \<noteq> ''B''"
    by (simp add: newTask_def)
  from not_found_leaves_store[OF h] h show ?thesis by simp
qed

subsection \<open>Weekly recurrence\<close>

text \<open>
  C7, amended: take a runtime whose time zone keeps calendar days, and a due date whose
  three segments \<open>Number\<close> reads as \<open>y\<close>, \<open>m\<close> and \<open>d\<close>, with a year from 100 on
  and a day number \<open>MakeDay y (m - 1) d\<close> from -99999999 to 99999991. The weekly result is
  then the calendar date, written as year, two-digit month and two-digit day, that lies
  exactly seven days after the due date, whatever the working-days-only flag; the earlier
  revision of the function, which has no flag, returns the same.
\<close>

theorem weekly_advances_seven_days:
  assumes "zoneKeepsDays rt"
      and "segment rt (split (CHR ''-'') s) 0 = Some y"
      and "segment rt (split (CHR ''-'') s) 1 = Some m"
      and "segment rt (split (CHR ''-'') s) 2 = Some d"
      and "100 \<le> y"
      and "- 99999999 \<le> MakeDay y (m - 1) d"
      and "MakeDay y (m - 1) d + 7 \<le> 99999998"
  shows "\<exists>Y M D.
           calculateNextDueDate rt (Some s) (Some ''weekly'') w
             = Some (String (Some Y) @ ''-'' @ padStart 2 (CHR ''0'') (String (Some M))
                     @ ''-'' @ padStart 2 (CHR ''0'') (String (Some D)))
         \<and> 1 \<le> M \<and> M \<le> 12 \<and> 1 \<le> D
         \<and> D \<le> monthStart M (if isLeapYear Y then 1 else 0)
                 - monthStart (M - 1) (if isLeapYear Y then 1 else 0)
         \<and> MakeDay Y (M - 1) D = MakeDay y (m - 1) d + 7
         \<and> calculateNextDueDate_v1 rt (Some s) (Some ''weekly'')
             = calculateNextDueDate rt (Some s) (Some ''weekly'') w"
proof -
  define d0 where "d0 = MakeDay y (m - 1) d"
  have ne: "s \<noteq> []" using assms(3) by (rule segments_nonempty)
  have r0: "dayInRange d0" and r7: "dayInRange (d0 + 7)"
    using assms(6,7) unfolding dayInRange_def d0_def by simp_all
  obtain t0 where p: "parseDate rt s = Some t0" and o0: "onDay rt t0 d0"
    using newDate_onDay[OF assms(1) assms(5), of "m - 1" d] r0
    unfolding parseDate_segments[OF assms(2-4)] d0_def by blast
  obtain t where adv: "advance rt ''weekly'' w (Some t0) = Some t"
    and o: "onDay rt t (d0 + 7)"
    using advance_weekly_onDay[OF assms(1) o0 r7] by blast
  have res: "calculateNextDueDate rt (Some s) (Some ''weekly'') w = Some (formatDate rt (Some t))"
    using ne by (simp add: calculateNextDueDate_truthy p adv)
  have v1: "calculateNextDueDate_v1 rt (Some s) (Some ''weekly'')
             = calculateNextDueDate rt (Some s) (Some ''weekly'') w"
    unfolding calculateNextDueDate_v1_def calculateNextDueDate_def advance_def truthy_def Let_def
    using ne by simp
  obtain Y M D where
    f: "formatDate rt (Some t)
          = String (Some Y) @ ''-'' @ padStart 2 (CHR ''0'') (String (Some M))
            @ ''-'' @ padStart 2 (CHR ''0'') (String (Some D))"
    and rng: "1 \<le> M" "M \<le> 12" "1 \<le> D"
      "D \<le> monthStart M (if isLeapYear Y then 1 else 0)
            - monthStart (M - 1) (if isLeapYear Y then 1 else 0)"
    and md: "MakeDay Y (M - 1) D = d0 + 7"
    using formatDate_onDay[OF o] by blast
  have r': "calculateNextDueDate rt (Some s) (Some ''weekly'') w
             = Some (String (Some Y) @ ''-'' @ padStart 2 (CHR ''0'') (String (Some M))
                     @ ''-'' @ padStart 2 (CHR ''0'') (String (Some D)))"
    unfolding res f ..
  show ?thesis
    unfolding d0_def[symmetric]
    by (intro exI[of _ Y] exI[of _ M] exI[of _ D] conjI r' rng md v1)
qed

text \<open>
  In a zone five hours west of Greenwich, across the end of a year: 2025-12-29 gives
  2026-01-05.
\<close>

theorem weekly_advances_seven_days_witness:
  "(\<exists>Y M D.
      calculateNextDueDate (exampleRuntime (- 18000000)) (Some ''2025-12-29'') (Some ''weekly'') True
        = Some (String (Some Y) @ ''-'' @ padStart 2 (CHR ''0'') (String (Some M))
                @ ''-'' @ padStart 2 (CHR ''0'') (String (Some D)))
      \<and> 1 \<le> M \<and> M \<le> 12 \<and> 1 \<le> D
      \<and> D \<le> monthStart M (if isLeapYear Y then 1 else 0)
              - monthStart (M - 1) (if isLeapYear Y then 1 else 0)
      \<and> MakeDay Y (M - 1) D = MakeDay 2025 (12 - 1) 29 + 7
      \<and> calculateNextDueDate_v1 (exampleRuntime (- 18000000)) (Some ''2025-12-29'')
            (Some ''weekly'')
          = calculateNextDueDate (exampleRuntime (- 18000000)) (Some ''2025-12-29'')
              (Some ''weekly'') True)
   \<and> calculateNextDueDate (exampleRuntime (- 18000000)) (Some ''2025-12-29'') (Some ''weekly'') True
       = Some ''2026-01-05''
   \<and> MakeDay 2026 (1 - 1) 5 = MakeDay 2025 (12 - 1) 29 + 7"
proof -
  have z: "zoneKeepsDays (exampleRuntime (- 18000000))"
    by (rule zoneKeepsDays_example) (simp add: msPerDay_def)
  have s0: "segment (exampleRuntime (- 18000000)) (split (CHR ''-'') ''2025-12-29'') 0 = Some 2025"
    by code_simp
  have s1: "segment (exampleRuntime (- 18000000)) (split (CHR ''-'') ''2025-12-29'') 1 = Some 12"
    by code_simp
  have s2: "segment (exampleRuntime (- 18000000)) (split (CHR ''-'') ''2025-12-29'') 2 = Some 29"
    by code_simp
  have y: "(100::int) \<le> 2025" by simp
  have lo: "- 99999999 \<le> MakeDay 2025 (12 - 1) 29" by code_simp
  have hi: "MakeDay 2025 (12 - 1) 29 + 7 \<le> 99999998" by code_simp
  have e: "calculateNextDueDate (exampleRuntime (- 18000000)) (Some ''2025-12-29'')
             (Some ''weekly'') True = Some ''2026-01-05''"
    by code_simp
  have m: "MakeDay 2026 (1 - 1) 5 = MakeDay 2025 (12 - 1) 29 + 7" by code_simp
  show ?thesis
    by (intro conjI; (rule weekly_advances_seven_days[OF z s0 s1 s2 y lo hi] | rule e | rule m))
qed

text \<open>
  C7 as stated fails in two places. A year from 0 to 99 is read by the Date constructor as
  1900 + year, so a week after 0050-03-01 comes out in 1950; and a week after
  275760-09-10 lies beyond the last day a Date holds, so the result is not a date.
\<close>

theorem weekly_counterexample:
  "calculateNextDueDate (exampleRuntime 0) (Some ''0050-03-01'') (Some ''weekly'') False
     = Some ''1950-03-08''
   \<and> MakeDay 1950 (3 - 1) 8 \<noteq> MakeDay 50 (3 - 1) 1 + 7
   \<and> calculateNextDueDate (exampleRuntime 0) (Some ''275760-09-10'') (Some ''weekly'') False
       = Some ''NaN-NaN-NaN''"
  by code_simp

subsection \<open>No due date\<close>

text \<open>
  C8: for every recurrence kind the next due date of an absent due date, \<open>null\<close> or the
  empty string, is that same value, and completing a task without a due date adds no task
  to the store.
\<close>

theorem no_due_date_no_successor:
  "calculateNextDueDate rt None r w = None
   \<and> calculateNextDueDate rt (Some []) r w = Some []
   \<and> calculateNextDueDate_v1 rt None r = None
   \<and> calculateNextDueDate_v1 rt (Some []) r = Some []
   \<and> (findIndex (\<lambda>u. taskId u = i) file = Some k \<and> \<not> truthy (dueDate (file ! k)) \<longrightarrow>
        length (snd (complete_task rt now rnd i file)) = length file
        \<and> map taskId (snd (complete_task rt now rnd i file)) = map taskId file)"
proof -
  have a: "calculateNextDueDate rt None r w = None"
    "calculateNextDueDate rt (Some []) r w = Some []"
    "calculateNextDueDate_v1 rt None r = None" "calculateNextDueDate_v1 rt (Some []) r = Some []"
    unfolding calculateNextDueDate_def calculateNextDueDate_v1_def truthy_def by simp_all
  have b: "length (snd (complete_task rt now rnd i file)) = length file
           \<and> map taskId (snd (complete_task rt now rnd i file)) = map taskId file"
    if h: "findIndex (\<lambda>u. taskId u = i) file = Some k \<and> \<not> truthy (dueDate (file ! k))"
  proof -
    from h have fi: "findIndex (\<lambda>u. taskId u = i) file = Some k" by simp
    from findIndex_Some[OF fi] have k: "k < length file" by simp
    from h have nd: "\<not> truthy (dueDate (file ! k))" by simp
    show ?thesis
      using k nd by (simp add: complete_task_found[OF fi] Let_def map_update list_update_same_conv)
  qed
  from a b show ?thesis by blast
qed

text \<open>A daily task without a due date is completed: the store still holds one task.\<close>

theorem no_due_date_no_successor_witness:
  "calculateNextDueDate (exampleRuntime 0) None (Some ''daily'') True = None
   \<and> findIndex (\<lambda>u. taskId u = ''A'')
        [newTask ''A'' 1000 ((exampleBody ''A'')\<lparr>b_recurring := Some ''daily''\<rparr>)] = Some 0
   \<and> recurring (newTask ''A'' 1000 ((exampleBody ''A'')\<lparr>b_recurring := Some ''daily''\<rparr>))
       = Some ''daily''
   \<and> length (snd (complete_task (exampleRuntime 0) 5000 7 ''A''
        [newTask ''A'' 1000 ((exampleBody ''A'')\<lparr>b_recurring := Some ''daily''\<rparr>)])) = 1"
proof -
  define st where "st = [newTask ''A'' 1000 ((exampleBody ''A'')\<lparr>b_recurring := Some ''daily''\<rparr>)]"
  have fi: "findIndex (\<lambda>u. taskId u = ''A'') st = Some 0"
    unfolding st_def by (simp add: newTask_def)
  have nd: "\<not> truthy (dueDate (st ! 0))"
    unfolding st_def by (simp add: newTask_def exampleBody_def orNull_def truthy_def)
  have rc: "recurring (newTask ''A'' 1000 ((exampleBody ''A'')\<lparr>b_recurring := Some ''daily''\<rparr>))
       = Some ''daily''"
    by (simp add: newTask_def exampleBody_def orNull_def truthy_def)
  from no_due_date_no_successor[of "exampleRuntime 0" "Some ''daily''" True "''A''" st 0 5000 7] fi nd
  have "calculateNextDueDate (exampleRuntime 0) None (Some ''daily'') True = None"
    and "length (snd (complete_task (exampleRuntime 0) 5000 7 ''A'' st)) = length st"
    by blast+
  then show ?thesis
    using fi rc unfolding st_def by simp
qed

section \<open>Timer accounting\<close>

lemma stop_task_found:
  assumes "findIndex (\<lambda>u. taskId u = i) file = Some k"
  shows "stop_task now i file =
     (let t = (file ! k)\<lparr>timeSpent := timeSpent (file ! k) + elapsed now (file ! k),
                 inProgress := False, startedAt := None, updatedAt := now\<rparr>
      in (Json t, file[k := t]))"
proof -
  have g: "getTask i file = Some (file ! k)"
    using assms by (simp add: getTask_Some)
  have id: "taskId (file ! k) = i"
    using findIndex_Some[OF assms] by simp
  show ?thesis
    unfolding stop_task_def g Let_def
    by (simp add: saveTask_existing[of _ "file" k] id assms)
qed

lemma floor_div_1000:
  fixes a :: int
  shows "1000 * (a div 1000) \<le> a \<and> a < 1000 * (a div 1000) + 1000"
  using div_lower[of 1000 a] div_upper[of 1000 a] by simp

lemma nonneg_div_1000: "(0::int) \<le> a \<Longrightarrow> 0 \<le> a div 1000"
  by (rule pos_imp_zdiv_nonneg_iff[THEN iffD2]) simp_all

text \<open>
  C2, amended: for every task of the store, stopping or completing it adds to
  \<open>timeSpent\<close> a whole number of seconds: the floor of (now - startedAt) / 1000 when the
  task is in progress with a start time, and zero otherwise. The amount is not negative
  whenever the clock reading of the request is not earlier than the start time.
\<close>

theorem stop_complete_add_elapsed_seconds:
  assumes "findIndex (\<lambda>u. taskId u = i) file = Some k"
  shows "\<exists>added t1 t2 rest.
           stop_task now i file = (Json t1, file[k := t1])
         \<and> timeSpent t1 = timeSpent (file ! k) + added
         \<and> complete_task rt now rnd i file = (Json t2, file[k := t2] @ rest)
         \<and> timeSpent t2 = timeSpent (file ! k) + added
         \<and> (\<forall>s. inProgress (file ! k) \<and> startedAt (file ! k) = Some s \<longrightarrow>
                1000 * added \<le> now - s \<and> now - s < 1000 * added + 1000
              \<and> (s \<le> now \<longrightarrow> 0 \<le> added))
         \<and> (\<not> inProgress (file ! k) \<or> startedAt (file ! k) = None \<longrightarrow> added = 0)"
proof -
  define t where "t = file ! k"
  define added where "added = elapsed now t"
  define t1 where "t1 = t\<lparr>timeSpent := timeSpent t + added,
                 inProgress := False, startedAt := None, updatedAt := now\<rparr>"
  define t2 where "t2 = t\<lparr>timeSpent := timeSpent t + added,
                 completed := True, archived := True, inProgress := False,
                 startedAt := None, completedAt := Some now, updatedAt := now\<rparr>"
  define rest where "rest = (if truthy (recurring t) \<and> truthy (dueDate t)
                             then [successor rt now rnd t2] else [])"
  have a: "stop_task now i file = (Json t1, file[k := t1])"
    unfolding stop_task_found[OF assms] Let_def t1_def added_def t_def by simp
  have b: "timeSpent t1 = timeSpent t + added" "timeSpent t2 = timeSpent t + added"
    unfolding t1_def t2_def by simp_all
  have c: "complete_task rt now rnd i file = (Json t2, file[k := t2] @ rest)"
    unfolding complete_task_found[OF assms] Let_def t2_def rest_def added_def t_def by simp
  have d: "1000 * added \<le> now - s \<and> now - s < 1000 * added + 1000
              \<and> (s \<le> now \<longrightarrow> 0 \<le> added)"
    if "inProgress t \<and> startedAt t = Some s" for s
  proof -
    from that have e: "added = (now - s) div 1000"
      unfolding added_def elapsed_def by simp
    show ?thesis
      unfolding e using floor_div_1000[of "now - s"] nonneg_div_1000[of "now - s"] by simp
  qed
  have z: "added = 0" if "\<not> inProgress t \<or> startedAt t = None"
    using that unfolding added_def elapsed_def by auto
  have d': "\<forall>s. inProgress t \<and> startedAt t = Some s \<longrightarrow>
                1000 * added \<le> now - s \<and> now - s < 1000 * added + 1000
              \<and> (s \<le> now \<longrightarrow> 0 \<le> added)"
    using d by blast
  have z': "\<not> inProgress t \<or> startedAt t = None \<longrightarrow> added = 0"
    using z by blast
  show ?thesis
    unfolding t_def[symmetric]
    by (intro exI[of _ added] exI[of _ t1] exI[of _ t2] exI[of _ rest] conjI a b c d' z')
qed


text \<open>Task A is started at 2000 ms and stopped at 9500 ms: seven seconds are added.\<close>

theorem stop_complete_add_elapsed_seconds_witness:
  "findIndex (\<lambda>u. taskId u = ''A'')
     (snd (start_task 2000 ''A'' [newTask ''A'' 1000 (exampleBody ''A'')])) = Some 0
   \<and> timeSpent (snd (start_task 2000 ''A'' [newTask ''A'' 1000 (exampleBody ''A'')]) ! 0) = 0
   \<and> timeSpent (snd (stop_task 9500 ''A''
        (snd (start_task 2000 ''A'' [newTask ''A'' 1000 (exampleBody ''A'')]))) ! 0) = 7"
proof -
  define st where "st = snd (start_task 2000 ''A'' [newTask ''A'' 1000 (exampleBody ''A'')])"
  have e: "st = [(newTask ''A'' 1000 (exampleBody ''A''))
                   \<lparr>inProgress := True, startedAt := Some 2000, updatedAt := 2000\<rparr>]"
    unfolding st_def start_task_def readTasks_def saveTask_def writeTasks_def Let_def
    by (simp add: newTask_def)
  have fi: "findIndex (\<lambda>u. taskId u = ''A'') st = Some 0"
    unfolding e by (simp add: newTask_def)
  have run: "inProgress (st ! 0) \<and> startedAt (st ! 0) = Some 2000"
    unfolding e by simp
  have ts: "timeSpent (st ! 0) = 0"
    unfolding e by (simp add: newTask_def)
  from stop_complete_add_elapsed_seconds[OF fi, of 9500]
  obtain added t1 where
    a: "stop_task 9500 ''A'' st = (Json t1, st[0 := t1])"
    and b: "timeSpent t1 = timeSpent (st ! 0) + added"
    and c: "\<forall>s. inProgress (st ! 0) \<and> startedAt (st ! 0) = Some s \<longrightarrow>
                1000 * added \<le> 9500 - s \<and> 9500 - s < 1000 * added + 1000
              \<and> (s \<le> 9500 \<longrightarrow> 0 \<le> added)"
    by blast
  from c run have "1000 * added \<le> 9500 - 2000 \<and> 9500 - 2000 < 1000 * added + 1000"
    by blast
  then have "added = 7" by linarith
  with b ts have "timeSpent t1 = 7" by simp
  moreover have "snd (stop_task 9500 ''A'' st) ! 0 = t1"
    unfolding a by (simp add: e)
  ultimately show ?thesis
    using fi ts unfolding st_def by simp
qed

text \<open>
  C2 as stated fails when the clock reading of the stop is earlier than the start time:
  task A is started at 2000 ms and stopped at 1500 ms, and one second is taken off.
\<close>

theorem stop_before_start_counterexample:
  "map timeSpent (snd (start_task 2000 ''A'' [newTask ''A'' 1000 (exampleBody ''A'')])) = [0]
   \<and> map timeSpent (snd (stop_task 1500 ''A''
        (snd (start_task 2000 ''A'' [newTask ''A'' 1000 (exampleBody ''A'')])))) = [- 1]
   \<and> map timeSpent (snd (complete_task (exampleRuntime 0) 1500 7 ''A''
        (snd (start_task 2000 ''A'' [newTask ''A'' 1000 (exampleBody ''A'')])))) = [- 1]"
  by code_simp

subsection \<open>Editing a task\<close>

lemma post_tasks_update:
  assumes g: "getTask i file = Some existingTask" and b: "b_id b = Some i" and i: "i \<noteq> []"
      and k: "findIndex (\<lambda>u. taskId u = i) file = Some k"
  shows "post_tasks rt now b file = (Json (updatedTask existingTask now b),
                                     file[k := updatedTask existingTask now b])
         \<or> (\<exists>msg. post_tasks rt now b file = (Error 400 msg, file))"
proof -
  have id: "taskId (updatedTask existingTask now b) = i"
    using getTask_taskId[OF g] unfolding updatedTask_def by simp
  have sv: "saveTask (updatedTask existingTask now b) file
              = file[k := updatedTask existingTask now b]"
    by (rule saveTask_existing) (simp add: id k)
  show ?thesis
    unfolding post_tasks_def Let_def using g b i sv
    by (auto simp: truthy_def split: option.splits)
qed

text \<open>
  C10: updating an existing task through POST /api/tasks with its id either fails with
  status 400 and leaves the store as it was, or replaces the task, at its place, by a task
  with the same id, timeSpent, inProgress, startedAt, completed, archived, completedAt and
  createdAt: the stored task differs from the old one in nothing but description, dueDate,
  dueTime, priority, recurring, details, links, isAppointment, reminderMinutes,
  workingDaysOnly and updatedAt. No other task of the store changes.
\<close>

theorem update_keeps_timer_and_lifecycle:
  assumes "getTask i file = Some existingTask" and "b_id b = Some i" and "i \<noteq> []"
  shows "(\<exists>msg. post_tasks rt now b file = (Error 400 msg, file))
       \<or> (\<exists>t k. post_tasks rt now b file = (Json t, file[k := t])
             \<and> findIndex (\<lambda>u. taskId u = i) file = Some k \<and> file ! k = existingTask
             \<and> getTask i (file[k := t]) = Some t
             \<and> taskId t = taskId existingTask
             \<and> timeSpent t = timeSpent existingTask
             \<and> inProgress t = inProgress existingTask
             \<and> startedAt t = startedAt existingTask
             \<and> completed t = completed existingTask
             \<and> archived t = archived existingTask
             \<and> completedAt t = completedAt existingTask
             \<and> createdAt t = createdAt existingTask
             \<and> t\<lparr>description := description existingTask, dueDate := dueDate existingTask,
                  dueTime := dueTime existingTask, priority := priority existingTask,
                  recurring := recurring existingTask, details := details existingTask,
                  links := links existingTask, isAppointment := isAppointment existingTask,
                  reminderMinutes := reminderMinutes existingTask,
                  workingDaysOnly := workingDaysOnly existingTask,
                  updatedAt := updatedAt existingTask\<rparr> = existingTask)"
proof -
  obtain k where k: "findIndex (\<lambda>u. taskId u = i) file = Some k" and e: "existingTask = file ! k"
    using assms(1) by (auto simp: getTask_Some)
  define t where "t = updatedTask existingTask now b"
  have id: "taskId t = i"
    using getTask_taskId[OF assms(1)] unfolding t_def updatedTask_def by simp
  have sv: "saveTask t file = file[k := t]"
    by (rule saveTask_existing) (simp add: id k)
  have gt: "getTask i (file[k := t]) = Some t"
    using getTask_saveTask[of t "file"] unfolding sv id .
  have fields: "taskId t = taskId existingTask" "timeSpent t = timeSpent existingTask"
    "inProgress t = inProgress existingTask" "startedAt t = startedAt existingTask"
    "completed t = completed existingTask" "archived t = archived existingTask"
    "completedAt t = completedAt existingTask" "createdAt t = createdAt existingTask"
    unfolding t_def updatedTask_def by simp_all
  have frame: "t\<lparr>description := description existingTask, dueDate := dueDate existingTask,
                  dueTime := dueTime existingTask, priority := priority existingTask,
                  recurring := recurring existingTask, details := details existingTask,
                  links := links existingTask, isAppointment := isAppointment existingTask,
                  reminderMinutes := reminderMinutes existingTask,
                  workingDaysOnly := workingDaysOnly existingTask,
                  updatedAt := updatedAt existingTask\<rparr> = existingTask"
    unfolding t_def updatedTask_def by simp
  from post_tasks_update[OF assms k, of rt now]
  consider (ok) "post_tasks rt now b file = (Json t, file[k := t])"
    | (err) "\<exists>msg. post_tasks rt now b file = (Error 400 msg, file)"
    unfolding t_def by blast
  then show ?thesis
  proof cases
    case ok
    have "post_tasks rt now b file = (Json t, file[k := t])
             \<and> findIndex (\<lambda>u. taskId u = i) file = Some k \<and> file ! k = existingTask
             \<and> getTask i (file[k := t]) = Some t
             \<and> taskId t = taskId existingTask
             \<and> timeSpent t = timeSpent existingTask
             \<and> inProgress t = inProgress existingTask
             \<and> startedAt t = startedAt existingTask
             \<and> completed t = completed existingTask
             \<and> archived t = archived existingTask
             \<and> completedAt t = completedAt existingTask
             \<and> createdAt t = createdAt existingTask
             \<and> t\<lparr>description := description existingTask, dueDate := dueDate existingTask,
                  dueTime := dueTime existingTask, priority := priority existingTask,
                  recurring := recurring existingTask, details := details existingTask,
                  links := links existingTask, isAppointment := isAppointment existingTask,
                  reminderMinutes := reminderMinutes existingTask,
                  workingDaysOnly := workingDaysOnly existingTask,
                  updatedAt := updatedAt existingTask\<rparr> = existingTask"
      by (intro conjI ok k e[symmetric] gt fields frame)
    then show ?thesis by blast
  next
    case err
    then show ?thesis by blast
  qed
qed

text \<open>Task A is running since 2000 ms; its description is edited at 5000 ms.\<close>

theorem update_keeps_timer_and_lifecycle_witness:
  "getTask ''A'' (snd (start_task 2000 ''A'' [newTask ''A'' 1000 (exampleBody ''A'')]))
     = Some ((newTask ''A'' 1000 (exampleBody ''A''))
               \<lparr>inProgress := True, startedAt := Some 2000, updatedAt := 2000\<rparr>)
   \<and> map (\<lambda>t. (description t, inProgress t, startedAt t, createdAt t, updatedAt t))
        (snd (post_tasks (exampleRuntime 0) 5000
               ((exampleBody ''A'')\<lparr>b_description := Some ''call the bank''\<rparr>)
               (snd (start_task 2000 ''A'' [newTask ''A'' 1000 (exampleBody ''A'')]))))
       = [(''call the bank'', True, Some 2000, 1000, 5000)]"
proof -
  have g: "getTask ''A'' (snd (start_task 2000 ''A'' [newTask ''A'' 1000 (exampleBody ''A'')]))
     = Some ((newTask ''A'' 1000 (exampleBody ''A''))
               \<lparr>inProgress := True, startedAt := Some 2000, updatedAt := 2000\<rparr>)"
    by code_simp
  have bi: "b_id ((exampleBody ''A'')\<lparr>b_description := Some ''call the bank''\<rparr>) = Some ''A''"
    by code_simp
  have ne: "''A'' \<noteq> []" by simp
  have ev: "map (\<lambda>t. (description t, inProgress t, startedAt t, createdAt t, updatedAt t))
        (snd (post_tasks (exampleRuntime 0) 5000
               ((exampleBody ''A'')\<lparr>b_description := Some ''call the bank''\<rparr>)
               (snd (start_task 2000 ''A'' [newTask ''A'' 1000 (exampleBody ''A'')]))))
       = [(''call the bank'', True, Some 2000, 1000, 5000)]"
    by code_simp
  show ?thesis
    using update_keeps_timer_and_lifecycle[OF g bi ne, of "exampleRuntime 0" 5000]
    by - (rule conjI, rule g, rule ev)
qed

subsection \<open>One running task\<close>

text \<open>
  C1 fails on the code: from the empty store, task A is created and started, task B is
  created and started. The start of B stops A only in the array it has read; \<open>saveTask\<close>
  reads the file again and stores B alone, so the persisted store holds two tasks in
  progress and A keeps its start time.
\<close>

theorem start_leaves_other_task_running:
  "map (\<lambda>t. (taskId t, inProgress t, startedAt t))
     (snd (start_task 4000 ''B''
       (snd (post_tasks (exampleRuntime 0) 3000 (exampleBody ''B'')
         (snd (start_task 2000 ''A''
           (snd (post_tasks (exampleRuntime 0) 1000 (exampleBody ''A'') []))))))))
   = [(''A'', True, Some 2000), (''B'', True, Some 4000)]"
  by code_simp

text \<open>Two tasks of the persisted store are in progress.\<close>

theorem start_leaves_other_task_running_witness:
  "length (filter inProgress
     (snd (start_task 4000 ''B''
       (snd (post_tasks (exampleRuntime 0) 3000 (exampleBody ''B'')
         (snd (start_task 2000 ''A''
           (snd (post_tasks (exampleRuntime 0) 1000 (exampleBody ''A'') []))))))))) = 2"
proof -
  have ev: "length (filter inProgress
     (snd (start_task 4000 ''B''
       (snd (post_tasks (exampleRuntime 0) 3000 (exampleBody ''B'')
         (snd (start_task 2000 ''A''
           (snd (post_tasks (exampleRuntime 0) 1000 (exampleBody ''A'') []))))))))) = 2"
    by code_simp
  show ?thesis
    using start_leaves_other_task_running by - (rule ev)
qed

section \<open>The streak counter\<close>

lemma record_same_day:
  assumes "lastCompletedDate g = Some (toDateString rt now)"
  shows "snd (recordTaskCompletion rt now g) =
           (let c = tasksCompletedToday g + 1;
                s = (if c = 3 \<and> currentStreak g = 0 then 1 else currentStreak g)
            in g\<lparr>currentStreak := s, tasksCompletedToday := c,
                 taskStreakData := Some (s, lastCompletedDate g, c)\<rparr>)"
  using assms unfolding recordTaskCompletion_def saveStreakData_def Let_def by simp

lemma record_new_day:
  assumes "lastCompletedDate g \<noteq> Some (toDateString rt now)"
  shows "snd (recordTaskCompletion rt now g) =
           (let s = (if 3 \<le> tasksCompletedToday g then
                       (if 0 < currentStreak g then currentStreak g + 1
                        else if currentStreak g = 0 then 1 else currentStreak g)
                     else 0)
            in g\<lparr>currentStreak := s, lastCompletedDate := Some (toDateString rt now),
                 tasksCompletedToday := 1,
                 taskStreakData := Some (s, Some (toDateString rt now), 1)\<rparr>)"
  using assms unfolding recordTaskCompletion_def saveStreakData_def Let_def by simp

text \<open>
  On every reachable state, in memory and in the storage, a day's count of three or more
  comes with a streak of at least one.
\<close>

lemma reachableStreak_inv:
  assumes "reachableStreak rt g"
  shows "0 \<le> currentStreak g \<and> (3 \<le> tasksCompletedToday g \<longrightarrow> 1 \<le> currentStreak g)
       \<and> (\<forall>s l c. taskStreakData g = Some (s, l, c) \<longrightarrow> 0 \<le> s \<and> (3 \<le> c \<longrightarrow> 1 \<le> s))"
  using assms
proof (induction rule: reachableStreak.induct)
  case (first_load now)
  show ?case
    unfolding newGamification_def loadStreakData_def resetStreak_def by simp
next
  case (next_event g e)
  show ?case
  proof (cases e)
    case (Completion now)
    show ?thesis
    proof (cases "lastCompletedDate g = Some (toDateString rt now)")
      case True
      then show ?thesis
        using next_event.IH unfolding Completion streakStep.simps record_same_day[OF True] Let_def
        by auto
    next
      case False
      then show ?thesis
        using next_event.IH unfolding Completion streakStep.simps record_new_day[OF False] Let_def
        by auto
    qed
  next
    case (PageLoad now)
    show ?thesis
    proof (cases "taskStreakData g")
      case None
      then show ?thesis
        unfolding PageLoad streakStep.simps newGamification_def loadStreakData_def resetStreak_def
        by simp
    next
      case (Some item)
      obtain s l c where item: "item = (s, l, c)" by (cases item)
      have i: "0 \<le> s \<and> (3 \<le> c \<longrightarrow> 1 \<le> s)"
        using next_event.IH Some item by blast
      show ?thesis
        using i
        unfolding PageLoad streakStep.simps newGamification_def loadStreakData_def
          resetStreak_def Some item Let_def
        by (auto split: option.splits)
    qed
  qed
qed

lemma completions_same_day:
  assumes "\<forall>now\<in>set nows. toDateString rt now = today"
      and "lastCompletedDate g = Some today"
      and "currentStreak g = (if 3 \<le> tasksCompletedToday g then 1 else 0)"
  shows "lastCompletedDate (completions rt nows g) = Some today
       \<and> tasksCompletedToday (completions rt nows g) = tasksCompletedToday g + int (length nows)
       \<and> currentStreak (completions rt nows g)
           = (if 3 \<le> tasksCompletedToday g + int (length nows) then 1 else 0)"
  using assms
proof (induction nows arbitrary: g)
  case Nil
  then show ?case by simp
next
  case (Cons now nows)
  define g' where "g' = snd (recordTaskCompletion rt now g)"
  have d: "lastCompletedDate g = Some (toDateString rt now)"
    using Cons.prems by simp
  have l: "lastCompletedDate g' = Some today"
    and c: "tasksCompletedToday g' = tasksCompletedToday g + 1"
    and s: "currentStreak g' = (if 3 \<le> tasksCompletedToday g' then 1 else 0)"
    unfolding g'_def record_same_day[OF d] Let_def using Cons.prems by auto
  have "\<forall>now\<in>set nows. toDateString rt now = today" using Cons.prems by simp
  from Cons.IH[OF this l s] show ?case
    unfolding completions.simps g'_def[symmetric] c by (simp add: algebra_simps)
qed

text \<open>
  C5: take a state of the counter that the page can reach, with a streak of 0, and any
  run of completions on one calendar day. After the run the count of the day is the
  number of completions recorded that day (those of the run, on top of the count so far
  when the day was already begun), and the streak is 1 exactly when that count is at least
  3: the first and the second completion of the day leave it at 0, the third sets it to
  1, and every later one leaves it at 1.
\<close>

theorem same_day_completions_streak:
  assumes "reachableStreak rt g" and "currentStreak g = 0"
      and "\<forall>now\<in>set nows. toDateString rt now = today" and "nows \<noteq> []"
  shows "let c = (if lastCompletedDate g = Some today then tasksCompletedToday g else 0)
                 + int (length nows)
         in tasksCompletedToday (completions rt nows g) = c
          \<and> currentStreak (completions rt nows g) = (if 3 \<le> c then 1 else 0)
          \<and> lastCompletedDate (completions rt nows g) = Some today"
proof -
  from reachableStreak_inv[OF assms(1)] assms(2) have lt: "tasksCompletedToday g < 3"
    by auto
  show ?thesis
  proof (cases "lastCompletedDate g = Some today")
    case True
    have "currentStreak g = (if 3 \<le> tasksCompletedToday g then 1 else 0)"
      using assms(2) lt by simp
    from completions_same_day[OF assms(3) True this] True show ?thesis
      unfolding Let_def by simp
  next
    case False
    obtain now rest where n: "nows = now # rest" using assms(4) by (cases nows) auto
    define g' where "g' = snd (recordTaskCompletion rt now g)"
    have d: "lastCompletedDate g \<noteq> Some (toDateString rt now)"
      using False assms(3) n by simp
    have l: "lastCompletedDate g' = Some today"
      and c: "tasksCompletedToday g' = 1"
      and s: "currentStreak g' = (if 3 \<le> tasksCompletedToday g' then 1 else 0)"
      unfolding g'_def record_new_day[OF d] Let_def using assms(3) n lt by auto
    have "\<forall>now\<in>set rest. toDateString rt now = today" using assms(3) n by simp
    from completions_same_day[OF this l s] False show ?thesis
      unfolding Let_def n completions.simps g'_def[symmetric] c by (simp add: algebra_simps)
  qed
qed


text \<open>
  The page is loaded on day 10 with an empty storage, and tasks are completed at three
  times of that day: two completions leave the streak at 0, the third makes it 1.
\<close>

theorem same_day_completions_streak_witness:
  "currentStreak (newGamification (exampleRuntime 0) 864000000 None) = 0
   \<and> tasksCompletedToday (completions (exampleRuntime 0) [864001000, 864002000, 864003000]
        (newGamification (exampleRuntime 0) 864000000 None)) = 3
   \<and> currentStreak (completions (exampleRuntime 0) [864001000, 864002000, 864003000]
        (newGamification (exampleRuntime 0) 864000000 None)) = 1
   \<and> currentStreak (completions (exampleRuntime 0) [864001000, 864002000]
        (newGamification (exampleRuntime 0) 864000000 None)) = 0"
proof -
  define rt where "rt = exampleRuntime 0"
  define g where "g = newGamification rt 864000000 None"
  have r: "reachableStreak rt g" unfolding g_def by (rule reachableStreak.first_load)
  have z: "currentStreak g = 0"
    unfolding g_def newGamification_def loadStreakData_def resetStreak_def by simp
  have l: "lastCompletedDate g = None"
    unfolding g_def newGamification_def loadStreakData_def resetStreak_def by simp
  have d: "toDateString rt 864001000 = 10" "toDateString rt 864002000 = 10"
    "toDateString rt 864003000 = 10"
    unfolding rt_def by code_simp+
  have d3: "\<forall>now\<in>set [864001000, 864002000, 864003000]. toDateString rt now = 10"
    using d by simp
  have d2: "\<forall>now\<in>set [864001000, 864002000]. toDateString rt now = 10"
    using d by simp
  have n3: "[864001000, 864002000, 864003000] \<noteq> ([]::int list)" by simp
  have n2: "[864001000, 864002000] \<noteq> ([]::int list)" by simp
  from same_day_completions_streak[OF r z d3 n3] l
  have a: "tasksCompletedToday (completions rt [864001000, 864002000, 864003000] g) = 3"
    "currentStreak (completions rt [864001000, 864002000, 864003000] g) = 1"
    unfolding Let_def by simp_all
  from same_day_completions_streak[OF r z d2 n2] l
  have b: "currentStreak (completions rt [864001000, 864002000] g) = 0"
    unfolding Let_def by simp
  show ?thesis
    using z a b unfolding g_def rt_def by simp
qed

text \<open>
  C4 fails on the code where a day is skipped. The page is loaded on day 10 and stays
  open; three tasks are completed on day 10, which makes the streak 1, and the next task
  is completed on day 12. \<open>recordTaskCompletion\<close> only compares the last day with today,
  so the streak becomes 2. The load of the page does count the days: loaded on day 12, the
  same storage gives a streak of 0.
\<close>

theorem skipped_day_extends_streak:
  "toDateString (exampleRuntime 0) 864003000 = 10
   \<and> toDateString (exampleRuntime 0) 1036801000 = 12
   \<and> currentStreak (completions (exampleRuntime 0) [864001000, 864002000, 864003000]
        (newGamification (exampleRuntime 0) 864000000 None)) = 1
   \<and> tasksCompletedToday (completions (exampleRuntime 0) [864001000, 864002000, 864003000]
        (newGamification (exampleRuntime 0) 864000000 None)) = 3
   \<and> currentStreak (completions (exampleRuntime 0)
        [864001000, 864002000, 864003000, 1036801000]
        (newGamification (exampleRuntime 0) 864000000 None)) = 2
   \<and> currentStreak (newGamification (exampleRuntime 0) 1036801000
        (taskStreakData (completions (exampleRuntime 0) [864001000, 864002000, 864003000]
           (newGamification (exampleRuntime 0) 864000000 None)))) = 0"
  by code_simp

text \<open>The streak after the completion on day 12 is not 0.\<close>

theorem skipped_day_extends_streak_witness:
  "currentStreak (completions (exampleRuntime 0)
        [864001000, 864002000, 864003000, 1036801000]
        (newGamification (exampleRuntime 0) 864000000 None)) \<noteq> 0"
  using skipped_day_extends_streak by simp

section \<open>Appointment reminders\<close>















end
